theory Spec2Isabelle
  imports Main "HOL-Library.Code_Target_Nat"
begin

section \<open>Values, errors and completions\<close>

text \<open>
  The embedding covers \<open>src/ern-local-cli/src/lib/utils.js\<close>. A JavaScript \<open>Error\<close>
  object is its \<open>name\<close> and its \<open>message\<close>; \<open>new Error(msg)\<close> has the name \<open>Error\<close>.
  An optional string parameter (\<open>x?: string\<close>) is a \<open>string option\<close>, \<open>None\<close> standing
  for \<open>undefined\<close> and \<open>null\<close>.
\<close>

datatype error = Error (errorName: string) (message: string)

definition newError :: "string \<Rightarrow> error" where
  "newError msg = Error ''Error'' msg"

text \<open>The template literal \<open>${e}\<close> calls \<open>Error.prototype.toString\<close>.\<close>

definition errorToString :: "error \<Rightarrow> string" where
  "errorToString e =
     (if errorName e = [] then message e
      else if message e = [] then errorName e
      else errorName e @ '': '' @ message e)"

text \<open>
  How a call ends: it returns a value, it throws (an \<open>async\<close> function: its promise is
  rejected), or \<open>process.exit\<close> ends the process with a status.
\<close>

datatype 'a completion = Returns 'a | Throws error | Exits nat

text \<open>
  The test \<open>if (x)\<close> of JavaScript on an optional string: \<open>undefined\<close>, \<open>null\<close> and the
  empty string are falsy. On an optional boolean only \<open>true\<close> is truthy. An array or an
  object is always truthy.
\<close>

definition truthy :: "string option \<Rightarrow> bool" where
  "truthy x = (case x of None \<Rightarrow> False | Some s \<Rightarrow> s \<noteq> [])"

definition truthyFlag :: "bool option \<Rightarrow> bool" where
  "truthyFlag x = (case x of None \<Rightarrow> False | Some b \<Rightarrow> b)"

text \<open>A version in a template literal: \<open>null\<close> prints as \<open>null\<close>.\<close>

definition showVersion :: "string option \<Rightarrow> string" where
  "showVersion v = (case v of None \<Rightarrow> ''null'' | Some s \<Rightarrow> s)"

section \<open>The data of the Cauldron\<close>

text \<open>
  A native application descriptor is handled through its canonical string
  \<open>name:platform:version\<close> (\<open>napDescriptor.toString()\<close>).
\<close>

type_synonym descriptor = string

record nativeAppVersion =
  versionName :: string
  isReleased :: bool

record nativeAppPlatform =
  platformName :: string
  versions :: "nativeAppVersion list"

record nativeApp =
  appName :: string
  platforms :: "nativeAppPlatform list"

text \<open>
  Modelled from the spec: the Cauldron client (\<open>cauldron\<close> of \<open>ern-core\<close>) is not among the
  sources. A document holds, for every descriptor, its top-level container version
  (\<open>None\<close>: none recorded) and the entries of its container. The store holds the
  committed document, which every reader sees, and the document of the open transaction,
  if one is open: ``all reads/writes performed between begin and commit are invisible to
  other readers until commit, and fully discarded on discard''.
\<close>

record document =
  containerVersions :: "descriptor \<Rightarrow> string option"
  containerEntries :: "descriptor \<Rightarrow> string list"

record store =
  committed :: document
  transaction :: "document option"

definition current :: "store \<Rightarrow> document" where
  "current s = (case transaction s of None \<Rightarrow> committed s | Some d \<Rightarrow> d)"

definition store_write :: "document \<Rightarrow> store \<Rightarrow> store" where
  "store_write d s =
     (case transaction s of None \<Rightarrow> s\<lparr>committed := d\<rparr> | Some _ \<Rightarrow> s\<lparr>transaction := Some d\<rparr>)"

section \<open>Calls, events and the world\<close>

text \<open>The checks of \<open>Ensure\<close>, each with the arguments the checker passes to it.\<close>

datatype ensure =
    CauldronIsActive "string option"
  | IsValidContainerVersion string "string option"
  | IsNewerContainerVersion string string "string option"
  | IsCompleteNapDescriptorString string "string option"
  | NoGitOrFilesystemPath "string list" "string option"
  | NapDescritorExistsInCauldron string "string option"
  | NapDescritorDoesNotExistsInCauldron string "string option"
  | PublishedToNpm "string list" "string option"
  | MiniAppNotInNativeApplicationVersionContainer "string list" descriptor "string option"
  | MiniAppIsInNativeApplicationVersionContainer "string list" descriptor "string option"
  | MiniAppIsInNativeApplicationVersionContainerWithDifferentVersion
      "string list" descriptor "string option"
  | DependencyNotInNativeApplicationVersionContainer "string list" descriptor "string option"
  | DependencyIsInNativeApplicationVersionContainer "string list" descriptor "string option"
  | DependencyIsInNativeApplicationVersionContainerWithDifferentVersion
      "string list" descriptor "string option"
  | DependencyNotInUseByAMiniApp "string list" descriptor "string option"

datatype dependencyPath = FromFileSystemPath string | FromString string

text \<open>
  The calls to collaborators. \<open>RunCauldronContainerGen d v publish containerName\<close> is
  \<open>runCauldronContainerGen(d, v, {publish, containerName})\<close>.
\<close>

datatype call =
    GetAllNativeApps
  | GetTopLevelContainerVersion descriptor
  | BeginTransaction
  | StateUpdateFunc
  | RunCauldronContainerGen descriptor "string option" bool "string option"
  | UpdateContainerVersion descriptor "string option"
  | CommitTransaction
  | DiscardTransaction
  | Ensure ensure
  | MiniAppFromPath string
  | MiniAppFromCurrentPath
  | StartPackagerInNewWindow string
  | RunLocalContainerGen "dependencyPath list" string string string "string list"
  | GenerateAndroidRunnerProject string string string string "bool option"
  | RegenerateAndroidRunnerConfig string string string "bool option"
  | GenerateIosRunnerProject string string string string "bool option"
  | RegenerateIosRunnerConfig string string string string "bool option"
  | RunAndroidProject string string
  | AskUserToSelectAniPhoneDevice
  | KillAllRunningSimulators
  | LaunchSimulator string
  | Xcodebuild "string list" string
  | InstallApplicationOnDevice string string
  | LaunchApplication string string

datatype level = DebugLevel | InfoLevel | ErrorLevel

text \<open>
  What a run leaves behind, in order. \<open>Invoked c\<close>: the call was made. \<open>Resolved c\<close> and
  \<open>Rejected c e\<close>: the caller waited for the call (\<open>await\<close>, or a synchronous call) and
  went on with its result or caught its error.
\<close>

datatype event =
    Invoked call
  | Resolved call
  | Rejected call error
  | Log level string
  | Spin string
  | SpinnerStart string
  | SpinnerText string
  | SpinnerSucceed string
  | SpinnerFail string
  | ShellMkdir string
  | ShellCd string
  | ProcessExit nat

text \<open>
  The world: the events so far, the state store, and the calls whose promise nobody
  waited for. A call to the state store is asynchronous (``every network or subprocess
  call (state-store reads/writes, ...) is an awaited asynchronous boundary''): its
  effect is in place when its promise settles. A promise that is not awaited cannot
  settle before the function that made the call gives up control, so such a call is
  only recorded in \<open>unawaited\<close>.
\<close>

record world =
  trace :: "event list"
  cauldronStore :: store
  unawaited :: "call list"

definition start :: "store \<Rightarrow> world" where
  "start s = \<lparr>trace = [], cauldronStore = s, unawaited = []\<rparr>"

text \<open>
  The environment: what the collaborators answer. \<open>failure c\<close> is the error call \<open>c\<close>
  fails with, if it fails.
\<close>

record env =
  failure :: "call \<Rightarrow> error option"
  nativeApps :: "nativeApp list"
  cwd :: string
  miniAppExistInPath :: "string \<Rightarrow> bool"
  miniAppNameAt :: "string \<Rightarrow> string"
  fsExistsSync :: "string \<Rightarrow> bool"
  currentPlatformVersionPath :: string
  rootDirectory :: string
  iPhoneDevice :: "string \<times> string"
  xcodebuildExitCode :: "nat option"

section \<open>Sequencing\<close>

type_synonym 'a prog = "world \<Rightarrow> 'a completion \<times> world"

definition ret :: "'a \<Rightarrow> 'a prog" where
  "ret x w = (Returns x, w)"

definition throw :: "error \<Rightarrow> 'a prog" where
  "throw e w = (Throws e, w)"

definition andThen :: "'a prog \<Rightarrow> ('a \<Rightarrow> 'b prog) \<Rightarrow> 'b prog" where
  "andThen m f w =
     (case m w of
        (Returns x, w') \<Rightarrow> f x w'
      | (Throws e, w') \<Rightarrow> (Throws e, w')
      | (Exits n, w') \<Rightarrow> (Exits n, w'))"

text \<open>\<open>try { m } catch (e) { h e }\<close>: only a thrown error is caught.\<close>

definition tryCatch :: "'a prog \<Rightarrow> (error \<Rightarrow> 'a prog) \<Rightarrow> 'a prog" where
  "tryCatch m h w =
     (case m w of
        (Returns x, w') \<Rightarrow> (Returns x, w')
      | (Throws e, w') \<Rightarrow> h e w'
      | (Exits n, w') \<Rightarrow> (Exits n, w'))"

definition emit :: "event \<Rightarrow> world \<Rightarrow> world" where
  "emit ev w = w\<lparr>trace := trace w @ [ev]\<rparr>"

definition say :: "event \<Rightarrow> unit prog" where
  "say ev w = (Returns (), emit ev w)"

definition processExit :: "nat \<Rightarrow> 'a prog" where
  "processExit n w = (Exits n, emit (ProcessExit n) w)"

text \<open>
  Modelled from the spec: what a call to the state store does to the store when it
  succeeds. \<open>beginTransaction\<close> opens a transaction on the current document,
  \<open>updateContainerVersion\<close> writes the version pointer of a descriptor,
  \<open>commitTransaction\<close> makes the document of the transaction the committed one,
  \<open>discardTransaction\<close> drops it. Every other call leaves the store as it is. A call
  that fails leaves the store as it is.
\<close>

fun effect :: "call \<Rightarrow> store \<Rightarrow> store" where
  "effect BeginTransaction s = s\<lparr>transaction := Some (current s)\<rparr>"
| "effect (UpdateContainerVersion d v) s =
     store_write ((current s)\<lparr>containerVersions := (containerVersions (current s))(d := v)\<rparr>) s"
| "effect CommitTransaction s = \<lparr>committed = current s, transaction = None\<rparr>"
| "effect DiscardTransaction s = s\<lparr>transaction := None\<rparr>"
| "effect c s = s"

definition perform :: "env \<Rightarrow> call \<Rightarrow> store \<Rightarrow> error option \<times> store" where
  "perform env c s =
     (case failure env c of Some e \<Rightarrow> (Some e, s) | None \<Rightarrow> (None, effect c s))"

text \<open>
  \<open>await c(...)\<close> with the meaning of the call given: the call is made, the caller waits
  for it, and goes on or catches its error.
\<close>

definition awaitWith :: "call \<Rightarrow> (store \<Rightarrow> error option \<times> store) \<Rightarrow> unit prog" where
  "awaitWith c act w =
     (let w1 = emit (Invoked c) w in
      case act (cauldronStore w1) of
        (Some e, s') \<Rightarrow> (Throws e, emit (Rejected c e) (w1\<lparr>cauldronStore := s'\<rparr>))
      | (None, s') \<Rightarrow> (Returns (), emit (Resolved c) (w1\<lparr>cauldronStore := s'\<rparr>)))"

definition await :: "env \<Rightarrow> call \<Rightarrow> unit prog" where
  "await env c = awaitWith c (perform env c)"

text \<open>A call that is waited for and answers with a value.\<close>

definition awaitValue :: "env \<Rightarrow> call \<Rightarrow> 'a \<Rightarrow> 'a prog" where
  "awaitValue env c x = andThen (await env c) (\<lambda>_. ret x)"

text \<open>
  \<open>await spin(msg, c(...))\<close>: the call is made first (it is an argument of \<open>spin\<close>), the
  spinner shows \<open>msg\<close>, and \<open>spin\<close> passes the result or the error of the call on.
\<close>

definition spin :: "string \<Rightarrow> env \<Rightarrow> call \<Rightarrow> unit prog" where
  "spin msg env c w =
     (let w1 = emit (Spin msg) (emit (Invoked c) w) in
      case perform env c (cauldronStore w1) of
        (Some e, s') \<Rightarrow> (Throws e, emit (Rejected c e) (w1\<lparr>cauldronStore := s'\<rparr>))
      | (None, s') \<Rightarrow> (Returns (), emit (Resolved c) (w1\<lparr>cauldronStore := s'\<rparr>)))"

text \<open>
  \<open>c(...)\<close> without \<open>await\<close>: the call is made and its promise is dropped.
  Modelled from the spec: the client of the state store is not among the sources.
  Every call to the state store is ``an awaited asynchronous boundary; the caller is
  suspended until completion'', and the function waits for each of its other calls to
  the client: a call completes while its caller is suspended. A caller that does not
  wait goes on at once: the call is recorded in \<open>unawaited\<close>, and it has not completed
  when the caller goes on.
\<close>

definition invoke :: "call \<Rightarrow> unit prog" where
  "invoke c w = (Returns (), (emit (Invoked c) w)\<lparr>unawaited := unawaited w @ [c]\<rparr>)"

text \<open>
  Modelled from the spec: the calls nobody waited for complete once the function that
  made them has returned or thrown, in the order they were made. The effect of a call
  that succeeds is then in place; a call that fails leaves the store as it is, and
  its error reaches nobody.
\<close>

definition settle :: "env \<Rightarrow> world \<Rightarrow> world" where
  "settle env w =
     w\<lparr>cauldronStore := fold (\<lambda>c s. snd (perform env c s)) (unawaited w) (cauldronStore w),
       unawaited := []\<rparr>"

section \<open>getNapDescriptorStringsFromCauldron\<close>

record napFilter =
  platform :: "string option"
  onlyReleasedVersions :: "bool option"
  onlyNonReleasedVersions :: "bool option"

text \<open>
  The innermost callback: the descriptor string of a version, or \<open>undefined\<close> (\<open>None\<close>)
  when the version is filtered out.
\<close>

definition napDescriptorString ::
  "napFilter \<Rightarrow> nativeApp \<Rightarrow> nativeAppPlatform \<Rightarrow> nativeAppVersion \<Rightarrow> string option" where
  "napDescriptorString f a p v =
     (if \<not> truthy (platform f) \<or> platform f = Some (platformName p) then
        (if (isReleased v \<and> \<not> truthyFlag (onlyNonReleasedVersions f)) \<or>
            (\<not> isReleased v \<and> \<not> truthyFlag (onlyReleasedVersions f))
         then Some (appName a @ '':'' @ platformName p @ '':'' @ versionName v)
         else None)
      else None)"

definition getNapDescriptorStringsFromCauldron :: "env \<Rightarrow> napFilter \<Rightarrow> (string option list) prog" where
  "getNapDescriptorStringsFromCauldron env f =
     andThen (awaitValue env GetAllNativeApps (nativeApps env)) (\<lambda>apps.
       ret (filter (\<lambda>elt. elt \<noteq> None)
             (concat (concat
               (map (\<lambda>a. map (\<lambda>p. map (\<lambda>v. napDescriptorString f a p v) (versions p))
                              (platforms a))
                    apps)))))"

section \<open>logErrorAndExitIfNotSatisfied\<close>

text \<open>
  The precondition specification: one optional entry per condition. An entry carries
  the arguments of the check and, last, the optional \<open>extraErrorMessage\<close>. A value of
  type \<open>string | Array<string>\<close> is a list of strings.
\<close>

record preconditions =
  noGitOrFilesystemPath :: "(string list \<times> string option) option"
  isValidContainerVersion :: "(string \<times> string option) option"
  isNewerContainerVersion :: "(string \<times> string \<times> string option) option"
  isCompleteNapDescriptorString :: "(string \<times> string option) option"
  napDescriptorExistInCauldron :: "(string \<times> string option) option"
  napDescritorDoesNotExistsInCauldron :: "(string \<times> string option) option"
  publishedToNpm :: "(string list \<times> string option) option"
  miniAppNotInNativeApplicationVersionContainer ::
    "(string list \<times> descriptor \<times> string option) option"
  miniAppIsInNativeApplicationVersionContainer ::
    "(string list \<times> descriptor \<times> string option) option"
  miniAppIsInNativeApplicationVersionContainerWithDifferentVersion ::
    "(string list \<times> descriptor \<times> string option) option"
  dependencyNotInNativeApplicationVersionContainer ::
    "(string list \<times> descriptor \<times> string option) option"
  dependencyIsInNativeApplicationVersionContainer ::
    "(string list \<times> descriptor \<times> string option) option"
  dependencyIsInNativeApplicationVersionContainerWithDifferentVersion ::
    "(string list \<times> descriptor \<times> string option) option"
  dependencyNotInUseByAMiniApp :: "(string list \<times> descriptor \<times> string option) option"
  cauldronIsActive :: "(string option) option"

definition noPreconditions :: preconditions where
  "noPreconditions =
     \<lparr>noGitOrFilesystemPath = None, isValidContainerVersion = None,
      isNewerContainerVersion = None, isCompleteNapDescriptorString = None,
      napDescriptorExistInCauldron = None, napDescritorDoesNotExistsInCauldron = None,
      publishedToNpm = None, miniAppNotInNativeApplicationVersionContainer = None,
      miniAppIsInNativeApplicationVersionContainer = None,
      miniAppIsInNativeApplicationVersionContainerWithDifferentVersion = None,
      dependencyNotInNativeApplicationVersionContainer = None,
      dependencyIsInNativeApplicationVersionContainer = None,
      dependencyIsInNativeApplicationVersionContainerWithDifferentVersion = None,
      dependencyNotInUseByAMiniApp = None, cauldronIsActive = None\<rparr>"

text \<open>
  One block \<open>if (x) { spinner.text = t; Ensure.f(args) }\<close> of the source: nothing when
  the entry is absent, else the text of the spinner and the check.
\<close>

definition whenPresent :: "'a option \<Rightarrow> string \<Rightarrow> ('a \<Rightarrow> ensure) \<Rightarrow> (string \<times> ensure) list" where
  "whenPresent x t f = (case x of None \<Rightarrow> [] | Some a \<Rightarrow> [(t, f a)])"

text \<open>The blocks of the \<open>try\<close> body, in the order of the source.\<close>

definition presentChecks :: "preconditions \<Rightarrow> (string \<times> ensure) list" where
  "presentChecks c =
     whenPresent (cauldronIsActive c) ''Ensuring that a Cauldron is active''
       (\<lambda>extra. CauldronIsActive extra) @
     whenPresent (isValidContainerVersion c) ''Ensuring that container version is valid''
       (\<lambda>(v, extra). IsValidContainerVersion v extra) @
     whenPresent (isNewerContainerVersion c)
       ''Ensuring that container version is newer compared to the current one''
       (\<lambda>(d, v, extra). IsNewerContainerVersion d v extra) @
     whenPresent (isCompleteNapDescriptorString c)
       ''Ensuring that native application descriptor is complete''
       (\<lambda>(d, extra). IsCompleteNapDescriptorString d extra) @
     whenPresent (noGitOrFilesystemPath c)
       ''Ensuring that not git or file system path(s) is/are used''
       (\<lambda>(obj, extra). NoGitOrFilesystemPath obj extra) @
     whenPresent (napDescriptorExistInCauldron c)
       ''Ensuring that native application descriptor exists in Cauldron''
       (\<lambda>(d, extra). NapDescritorExistsInCauldron d extra) @
     whenPresent (napDescritorDoesNotExistsInCauldron c)
       ''Ensuring that native application descriptor does not already exist in Cauldron''
       (\<lambda>(d, extra). NapDescritorDoesNotExistsInCauldron d extra) @
     whenPresent (publishedToNpm c)
       ''Ensuring that package(s) version(s) have been published to NPM''
       (\<lambda>(obj, extra). PublishedToNpm obj extra) @
     whenPresent (miniAppNotInNativeApplicationVersionContainer c)
       ''Ensuring that MiniApp(s) is/are not present in native application version container''
       (\<lambda>(m, d, extra). MiniAppNotInNativeApplicationVersionContainer m d extra) @
     whenPresent (miniAppIsInNativeApplicationVersionContainer c)
       ''Ensuring that MiniApp(s) is/are present in native application version container''
       (\<lambda>(m, d, extra). MiniAppIsInNativeApplicationVersionContainer m d extra) @
     whenPresent (miniAppIsInNativeApplicationVersionContainerWithDifferentVersion c)
       ''Ensuring that MiniApp(s) is/are present in native application version container with different version(s)''
       (\<lambda>(m, d, extra).
          MiniAppIsInNativeApplicationVersionContainerWithDifferentVersion m d extra) @
     whenPresent (dependencyNotInNativeApplicationVersionContainer c)
       ''Ensuring that dependency(ies) is/are not present in native application version container''
       (\<lambda>(dep, d, extra). DependencyNotInNativeApplicationVersionContainer dep d extra) @
     whenPresent (dependencyIsInNativeApplicationVersionContainer c)
       ''Ensuring that dependency(ies) is/are present in native application version container''
       (\<lambda>(dep, d, extra). DependencyIsInNativeApplicationVersionContainer dep d extra) @
     whenPresent (dependencyIsInNativeApplicationVersionContainerWithDifferentVersion c)
       ''Ensuring that dependency(ies) is/are present in native application version container with different version(s)''
       (\<lambda>(dep, d, extra).
          DependencyIsInNativeApplicationVersionContainerWithDifferentVersion dep d extra) @
     whenPresent (dependencyNotInUseByAMiniApp c)
       ''Ensuring that no MiniApp(s) is/are using a dependency''
       (\<lambda>(dep, d, extra). DependencyNotInUseByAMiniApp dep d extra)"

text \<open>
  The blocks run one after the other; a check that throws leaves the \<open>try\<close> body, so
  the blocks after it do not run.
\<close>

fun runChecks :: "env \<Rightarrow> (string \<times> ensure) list \<Rightarrow> unit prog" where
  "runChecks env [] w = (Returns (), w)"
| "runChecks env ((t, c) # cs) w =
     (case await env (Ensure c) (emit (SpinnerText t) w) of
        (Returns _, w') \<Rightarrow> runChecks env cs w'
      | (Throws e, w') \<Rightarrow> (Throws e, w')
      | (Exits n, w') \<Rightarrow> (Exits n, w'))"

definition logErrorAndExitIfNotSatisfied :: "env \<Rightarrow> preconditions \<Rightarrow> unit prog" where
  "logErrorAndExitIfNotSatisfied env c =
     andThen (say (SpinnerStart ''Performing initial checks'')) (\<lambda>_.
       tryCatch
         (andThen (runChecks env (presentChecks c)) (\<lambda>_.
            say (SpinnerSucceed ''All initial checks have passed'')))
         (\<lambda>e. andThen (say (SpinnerFail (message e))) (\<lambda>_. processExit 1)))"

section \<open>The package semver\<close>

text \<open>Decimal numerals, for the exit code in a message and for versions.\<close>

fun showNat :: "nat \<Rightarrow> string" where
  "showNat n =
     (if n < 10 then [''0123456789'' ! n]
      else showNat (n div 10) @ [''0123456789'' ! (n mod 10)])"

declare showNat.simps [simp del]

text \<open>
  Modelled from the spec: \<open>semver.inc(version, release)\<close> belongs to the package
  \<open>semver\<close>, which is not among the sources. The spec has the patch component
  incremented ``per standard semantic-versioning rules''; the model follows what the
  package computes for this call (version 5 of the package, strict parsing, no
  identifier argument). A character is a code unit below 256.

  A version longer than 256 characters is refused. The version is trimmed of white
  space and must then match
  \<open>v?MAJOR.MINOR.PATCH(-PRERELEASE)?(+BUILD)?\<close>: three decimal numerals without leading
  zeros, none above 2^53 - 1; prerelease identifiers, separated by dots, each a
  numeral without leading zeros or a non-empty word of letters, digits and hyphens that
  is not a numeral; build identifiers, separated by dots, each a non-empty word of
  letters, digits and hyphens. A numeric prerelease identifier below 2^53 - 1 is
  kept as a number, any other as a string.
\<close>

datatype release = Major | Premajor | Minor | Preminor | Patch | Prepatch | Prerelease | Pre

datatype prereleaseId = Numeric nat | Alphanumeric string

record semVer =
  major :: nat
  minor :: nat
  patch :: nat
  prerelease :: "prereleaseId list"
  build :: "string list"

definition maxSafeInteger :: nat where
  "maxSafeInteger = 9007199254740991"

definition maxLength :: nat where
  "maxLength = 256"

fun position :: "'a \<Rightarrow> 'a list \<Rightarrow> nat option" where
  "position x [] = None"
| "position x (y # ys) = (if x = y then Some 0 else map_option Suc (position x ys))"

definition digitValue :: "char \<Rightarrow> nat option" where
  "digitValue c = position c ''0123456789''"

definition isDigit :: "char \<Rightarrow> bool" where
  "isDigit c = (digitValue c \<noteq> None)"

definition isIdentifierChar :: "char \<Rightarrow> bool" where
  "isIdentifierChar c =
     (c \<in> set ''0123456789abcdefghijklmnopqrstuvwxyzABCDEFGHIJKLMNOPQRSTUVWXYZ-'')"

text \<open>
  The white space \<open>String.prototype.trim\<close> removes, among the code units below 256: tab,
  line feed, vertical tab, form feed, carriage return, space and no-break space.
\<close>

definition isWhiteSpace :: "char \<Rightarrow> bool" where
  "isWhiteSpace c =
     (c \<in> set [CHR 0x09, CHR 0x0A, CHR 0x0B, CHR 0x0C, CHR 0x0D, CHR 0x20, CHR 0xA0])"

definition trim :: "string \<Rightarrow> string" where
  "trim s = rev (dropWhile isWhiteSpace (rev (dropWhile isWhiteSpace s)))"

fun parseDigits :: "nat \<Rightarrow> string \<Rightarrow> nat option" where
  "parseDigits acc [] = Some acc"
| "parseDigits acc (c # cs) =
     (case digitValue c of None \<Rightarrow> None | Some k \<Rightarrow> parseDigits (10 * acc + k) cs)"

text \<open>\<open>0|[1-9][0-9]*\<close>: a decimal numeral without leading zeros, and its value.\<close>

definition parseNumericIdentifier :: "string \<Rightarrow> nat option" where
  "parseNumericIdentifier s =
     (if s = [] then None
      else if hd s = CHR ''0'' \<and> tl s \<noteq> [] then None
      else parseDigits 0 s)"

fun splitDots :: "string \<Rightarrow> string list" where
  "splitDots [] = [[]]"
| "splitDots (c # cs) =
     (if c = CHR ''.'' then [] # splitDots cs
      else case splitDots cs of [] \<Rightarrow> [[c]] | x # xs \<Rightarrow> (c # x) # xs)"

text \<open>
  \<open>splitAtFirst c s\<close>: what stands before the first \<open>c\<close> in \<open>s\<close>, and what stands after
  it if there is one.
\<close>

definition splitAtFirst :: "char \<Rightarrow> string \<Rightarrow> string \<times> string option" where
  "splitAtFirst c s =
     (takeWhile (\<lambda>x. x \<noteq> c) s,
      case dropWhile (\<lambda>x. x \<noteq> c) s of [] \<Rightarrow> None | x # rest \<Rightarrow> Some rest)"

definition stripV :: "string \<Rightarrow> string" where
  "stripV s = (case s of [] \<Rightarrow> [] | c # cs \<Rightarrow> if c = CHR ''v'' then cs else s)"

definition parseMainNumber :: "string \<Rightarrow> nat option" where
  "parseMainNumber s =
     (case parseNumericIdentifier s of
        None \<Rightarrow> None
      | Some n \<Rightarrow> if n \<le> maxSafeInteger then Some n else None)"

definition parseCore :: "string \<Rightarrow> (nat \<times> nat \<times> nat) option" where
  "parseCore s =
     (case map parseMainNumber (splitDots s) of
        [Some a, Some b, Some c] \<Rightarrow> Some (a, b, c)
      | _ \<Rightarrow> None)"

definition parsePrereleaseIdentifier :: "string \<Rightarrow> prereleaseId option" where
  "parsePrereleaseIdentifier s =
     (if s = [] \<or> \<not> list_all isIdentifierChar s then None
      else if list_all isDigit s then
        (case parseNumericIdentifier s of
           None \<Rightarrow> None
         | Some n \<Rightarrow> Some (if n < maxSafeInteger then Numeric n else Alphanumeric s))
      else Some (Alphanumeric s))"

definition parsePrerelease :: "string option \<Rightarrow> prereleaseId list option" where
  "parsePrerelease p =
     (case p of
        None \<Rightarrow> Some []
      | Some s \<Rightarrow> those (map parsePrereleaseIdentifier (splitDots s)))"

definition parseBuild :: "string option \<Rightarrow> string list option" where
  "parseBuild b =
     (case b of
        None \<Rightarrow> Some []
      | Some s \<Rightarrow>
          if list_all (\<lambda>i. i \<noteq> [] \<and> list_all isIdentifierChar i) (splitDots s)
          then Some (splitDots s) else None)"

text \<open>
  \<open>new SemVer(version)\<close>, \<open>None\<close> when the constructor throws. Neither a digit nor a dot
  is \<open>+\<close> or \<open>-\<close>, and no prerelease identifier holds a \<open>+\<close>: the build part starts
  after the first \<open>+\<close>, the prerelease part after the first \<open>-\<close> before it.
\<close>

definition parseSemVer :: "string \<Rightarrow> semVer option" where
  "parseSemVer version =
     (if maxLength < length version then None
      else
        case splitAtFirst (CHR ''+'') (stripV (trim version)) of (front, buildPart) \<Rightarrow>
        case splitAtFirst (CHR ''-'') front of (core, prereleasePart) \<Rightarrow>
        case (parseCore core, parsePrerelease prereleasePart, parseBuild buildPart) of
          (Some (a, b, c), Some pre, Some bld) \<Rightarrow>
            Some \<lparr>major = a, minor = b, patch = c, prerelease = pre, build = bld\<rparr>
        | _ \<Rightarrow> None)"

text \<open>\<open>SemVer.prototype.format\<close>: the build identifiers are not part of the version.\<close>

definition versionString :: "nat \<Rightarrow> nat \<Rightarrow> nat \<Rightarrow> string" where
  "versionString a b c = showNat a @ ''.'' @ showNat b @ ''.'' @ showNat c"

definition showIdentifier :: "prereleaseId \<Rightarrow> string" where
  "showIdentifier i = (case i of Numeric n \<Rightarrow> showNat n | Alphanumeric s \<Rightarrow> s)"

fun joinDots :: "string list \<Rightarrow> string" where
  "joinDots [] = []"
| "joinDots [x] = x"
| "joinDots (x # xs) = x @ ''.'' @ joinDots xs"

definition formatSemVer :: "semVer \<Rightarrow> string" where
  "formatSemVer v =
     versionString (major v) (minor v) (patch v) @
     (if prerelease v = [] then []
      else ''-'' @ joinDots (map showIdentifier (prerelease v)))"

text \<open>
  \<open>SemVer.prototype.inc\<close>. The release \<open>pre\<close> adds one to the last numeric prerelease
  identifier, or appends \<open>0\<close> when there is none. The release \<open>patch\<close>: ``if this is not
  a pre-release version, it will increment the patch; if it is a pre-release it will
  bump up to the same patch version''.
\<close>

fun bumpFirstNumeric :: "prereleaseId list \<Rightarrow> prereleaseId list option" where
  "bumpFirstNumeric [] = None"
| "bumpFirstNumeric (Numeric n # ids) = Some (Numeric (n + 1) # ids)"
| "bumpFirstNumeric (Alphanumeric s # ids) =
     map_option (\<lambda>r. Alphanumeric s # r) (bumpFirstNumeric ids)"

definition incPre :: "semVer \<Rightarrow> semVer" where
  "incPre v =
     v\<lparr>prerelease :=
         (if prerelease v = [] then [Numeric 0]
          else case bumpFirstNumeric (rev (prerelease v)) of
                 Some r \<Rightarrow> rev r
               | None \<Rightarrow> prerelease v @ [Numeric 0])\<rparr>"

definition incPatch :: "semVer \<Rightarrow> semVer" where
  "incPatch v =
     v\<lparr>patch := (if prerelease v = [] then patch v + 1 else patch v), prerelease := []\<rparr>"

fun incSemVer :: "release \<Rightarrow> semVer \<Rightarrow> semVer" where
  "incSemVer Premajor v =
     incPre (v\<lparr>prerelease := [], patch := 0, minor := 0, major := major v + 1\<rparr>)"
| "incSemVer Preminor v = incPre (v\<lparr>prerelease := [], patch := 0, minor := minor v + 1\<rparr>)"
| "incSemVer Prepatch v = incPre (incPatch (v\<lparr>prerelease := []\<rparr>))"
| "incSemVer Prerelease v = incPre (if prerelease v = [] then incPatch v else v)"
| "incSemVer Major v =
     v\<lparr>major := (if minor v \<noteq> 0 \<or> patch v \<noteq> 0 \<or> prerelease v = [] then major v + 1
                 else major v),
       minor := 0, patch := 0, prerelease := []\<rparr>"
| "incSemVer Minor v =
     v\<lparr>minor := (if patch v \<noteq> 0 \<or> prerelease v = [] then minor v + 1 else minor v),
       patch := 0, prerelease := []\<rparr>"
| "incSemVer Patch v = incPatch v"
| "incSemVer Pre v = incPre v"

text \<open>
  \<open>semver.inc(version, release)\<close>: the incremented version as a string, or \<open>null\<close>
  (\<open>None\<close>) when \<open>version\<close> is not a valid version.
\<close>

definition semverInc :: "string \<Rightarrow> release \<Rightarrow> string option" where
  "semverInc version r =
     map_option (\<lambda>v. formatSemVer (incSemVer r v)) (parseSemVer version)"

section \<open>performContainerStateUpdateInCauldron\<close>

record updateOptions =
  containerVersion :: "string option"

text \<open>
  Modelled from the spec: \<open>getTopLevelContainerVersion(descriptor)\<close> answers with the
  version pointer of the descriptor in the current document.
\<close>

definition awaitGetTopLevelContainerVersion :: "env \<Rightarrow> descriptor \<Rightarrow> (string option) prog" where
  "awaitGetTopLevelContainerVersion env d =
     andThen (await env (GetTopLevelContainerVersion d)) (\<lambda>_ w.
       (Returns (containerVersions (current (cauldronStore w)) d), w))"

text \<open>
  Lines 310 to 321: the value of the variable \<open>cauldronContainerVersion\<close>.
  \<open>semver.inc\<close> answers \<open>null\<close> (\<open>None\<close>) on a string that is not a version.
\<close>

definition cauldronContainerVersion ::
  "env \<Rightarrow> descriptor \<Rightarrow> updateOptions \<Rightarrow> (string option) prog" where
  "cauldronContainerVersion env napDescriptor opts =
     (if truthy (containerVersion opts) then ret (containerVersion opts)
      else
        andThen (awaitGetTopLevelContainerVersion env napDescriptor) (\<lambda>recorded.
          case recorded of
            None \<Rightarrow> ret (Some ''1.0.0'')
          | Some v \<Rightarrow> if v \<noteq> [] then ret (semverInc v Patch) else ret (Some ''1.0.0'')))"

text \<open>
  The mutation the caller supplies works on the current document and may fail after it
  has changed it.
\<close>

definition onDocument :: "(document \<Rightarrow> error option \<times> document) \<Rightarrow> store \<Rightarrow> error option \<times> store" where
  "onDocument f s = (case f (current s) of (r, d') \<Rightarrow> (r, store_write d' s))"

definition performContainerStateUpdateInCauldron ::
  "env \<Rightarrow> (document \<Rightarrow> error option \<times> document) \<Rightarrow> descriptor \<Rightarrow> updateOptions \<Rightarrow> unit prog" where
  "performContainerStateUpdateInCauldron env stateUpdateFunc napDescriptor opts =
     andThen (cauldronContainerVersion env napDescriptor opts) (\<lambda>v.
       tryCatch
         (andThen (await env BeginTransaction) (\<lambda>_.
          andThen (awaitWith StateUpdateFunc (onDocument stateUpdateFunc)) (\<lambda>_.
          andThen (spin (''Generating new container version '' @ showVersion v @ '' for '' @
                         napDescriptor)
                     env (RunCauldronContainerGen napDescriptor v True None)) (\<lambda>_.
          andThen (await env (UpdateContainerVersion napDescriptor v)) (\<lambda>_.
          andThen (spin ''Updating Cauldron'' env CommitTransaction) (\<lambda>_.
          say (Log DebugLevel (''Published new container version '' @ showVersion v @
                               '' for '' @ napDescriptor))))))))
         (\<lambda>e.
          andThen (say (Log ErrorLevel
                     (''[performContainerStateUpdateInCauldron] An error happened '' @
                      errorToString e))) (\<lambda>_.
          andThen (invoke DiscardTransaction) (\<lambda>_.
          throw e))))"

section \<open>runMiniApp\<close>

record runMiniAppOptions =
  mainMiniAppName :: "string option"
  miniapps :: "string list option"
  dependencies :: "string list option"
  descriptor :: "string option"
  dev :: "bool option"

definition throwIf :: "bool \<Rightarrow> error \<Rightarrow> unit prog" where
  "throwIf b e = (if b then throw e else ret ())"

text \<open>\<open>path.join(a, b)\<close>, without the normalisation Node applies to the result.\<close>

definition pathJoin :: "string \<Rightarrow> string \<Rightarrow> string" where
  "pathJoin a b = a @ ''/'' @ b"

definition generateContainerForRunner ::
  "env \<Rightarrow> string \<Rightarrow> descriptor option \<Rightarrow> string list \<Rightarrow> dependencyPath list \<Rightarrow> unit prog" where
  "generateContainerForRunner env pf napDescriptor dependenciesObjs miniAppsPaths =
     (case napDescriptor of
        Some d \<Rightarrow> await env (RunCauldronContainerGen d (Some ''1.0.0'') False (Some ''runner''))
      | None \<Rightarrow>
          spin ''Generating Container locally'' env
            (RunLocalContainerGen miniAppsPaths pf ''1.0.0'' ''runner'' dependenciesObjs))"

definition launchAndroidRunner :: "env \<Rightarrow> string \<Rightarrow> unit prog" where
  "launchAndroidRunner env pathToAndroidRunner =
     await env (RunAndroidProject pathToAndroidRunner ''com.walmartlabs.ern'')"

text \<open>
  \<open>buildIosRunner\<close>: the promise resolves when \<open>xcodebuild\<close> closes with code 0 and is
  rejected otherwise (\<open>None\<close>: the code is \<open>null\<close>, the process was killed). The output of
  the process, logged at debug level, is left out.
\<close>

definition buildIosRunner :: "env \<Rightarrow> string \<Rightarrow> string \<Rightarrow> unit prog" where
  "buildIosRunner env pathToIosRunner deviceName =
     awaitWith
       (Xcodebuild
          [''-scheme'', ''ErnRunner'', ''build'', ''-destination'',
           ''platform=iOS Simulator,name='' @ deviceName,
           ''SYMROOT='' @ pathToIosRunner @ ''/build'']
          pathToIosRunner)
       (\<lambda>s. (if xcodebuildExitCode env = Some 0 then None
              else Some (newError (''XCode xcbuild command failed with exit code '' @
                     (case xcodebuildExitCode env of None \<Rightarrow> ''null'' | Some n \<Rightarrow> showNat n))),
             s))"

definition launchIosRunner :: "env \<Rightarrow> string \<Rightarrow> unit prog" where
  "launchIosRunner env pathToIosRunner =
     andThen (awaitValue env AskUserToSelectAniPhoneDevice (iPhoneDevice env)) (\<lambda>(udid, deviceName).
     andThen (await env KillAllRunningSimulators) (\<lambda>_.
     andThen (say (SpinnerStart ''Waiting for device to boot'')) (\<lambda>_.
     andThen (await env (LaunchSimulator udid)) (\<lambda>_.
     andThen (say (ShellCd pathToIosRunner)) (\<lambda>_.
     tryCatch
       (andThen (say (SpinnerText ''Building iOS Runner project'')) (\<lambda>_.
        andThen (buildIosRunner env pathToIosRunner deviceName) (\<lambda>_.
        andThen (say (SpinnerText ''Installing runner project on device'')) (\<lambda>_.
        andThen (await env (InstallApplicationOnDevice udid
                   (pathToIosRunner @ ''/build/Debug-iphonesimulator/ErnRunner.app''))) (\<lambda>_.
        andThen (say (SpinnerText ''Launching runner project'')) (\<lambda>_.
        andThen (await env (LaunchApplication udid ''com.yourcompany.ernrunner'')) (\<lambda>_.
        say (SpinnerSucceed ''Done''))))))))
       (\<lambda>e. andThen (say (SpinnerFail (message e))) (\<lambda>_. throw e)))))))"

text \<open>
  Lines 393 to 403: with a descriptor, the two preconditions are checked and the
  descriptor is parsed; \<open>NativeApplicationDescriptor.fromString\<close> keeps the string.
\<close>

definition checkedDescriptor :: "env \<Rightarrow> runMiniAppOptions \<Rightarrow> (descriptor option) prog" where
  "checkedDescriptor env a =
     (case descriptor a of
        None \<Rightarrow> ret None
      | Some d \<Rightarrow>
          if d = [] then ret None
          else
            andThen (logErrorAndExitIfNotSatisfied env
                       (noPreconditions
                          \<lparr>isCompleteNapDescriptorString := Some (d, None),
                           napDescriptorExistInCauldron := Some (d,
                             Some ''You cannot create a Runner for a non existing native application version.'')\<rparr>))
              (\<lambda>_. ret (Some d)))"

text \<open>
  Lines 405 to 432: the entry MiniApp, the native dependencies, the paths of the
  MiniApps and the development mode the runner is generated with.
\<close>

definition runnerInputs ::
  "env \<Rightarrow> runMiniAppOptions \<Rightarrow> (string \<times> string list \<times> dependencyPath list \<times> bool option) prog" where
  "runnerInputs env a =
     (let entry0 = (case mainMiniAppName a of None \<Rightarrow> [] | Some n \<Rightarrow> n);
          deps = (case dependencies a of None \<Rightarrow> [] | Some ds \<Rightarrow> ds)
      in
      case miniapps a of
        Some ms \<Rightarrow>
          andThen
            (if miniAppExistInPath env (cwd env) then
               andThen (awaitValue env (MiniAppFromPath (cwd env)) (miniAppNameAt env (cwd env)))
                 (\<lambda>miniappName.
               andThen (say (Log DebugLevel (''This command is being run from the '' @
                          miniappName @ '' MiniApp directory.''))) (\<lambda>_.
               andThen (say (Log InfoLevel
                          (''All extra MiniApps will be included in the Runner container along with '' @
                           miniappName))) (\<lambda>_.
               if \<not> truthy (mainMiniAppName a) then
                 andThen (say (Log InfoLevel (miniappName @ '' will be set as the main MiniApp'')))
                   (\<lambda>_.
                 andThen (say (Log InfoLevel
                            (''You can select another one instead through '' @ [CHR 0x27] @
                             ''--mainMiniAppName'' @ [CHR 0x27] @ '' option''))) (\<lambda>_.
                 ret (miniappName, [FromFileSystemPath (cwd env)])))
               else ret (entry0, [FromFileSystemPath (cwd env)]))))
             else ret (entry0, []))
            (\<lambda>(entry, paths). ret (entry, deps, paths @ map FromString ms, dev a))
      | None \<Rightarrow>
          if \<not> truthy (descriptor a) then
            andThen (awaitValue env MiniAppFromCurrentPath (miniAppNameAt env (cwd env)))
              (\<lambda>entry.
            andThen (say (Log DebugLevel (''This command is being run from the '' @ entry @
                       '' MiniApp directory.''))) (\<lambda>_.
            andThen (say (Log DebugLevel ''Initializing Runner'')) (\<lambda>_.
            andThen
              (if dev a = None then
                 andThen (await env (StartPackagerInNewWindow (cwd env))) (\<lambda>_. ret (Some True))
               else ret (dev a))
              (\<lambda>dev'. ret (entry, deps, [FromFileSystemPath (cwd env)], dev')))))
          else ret (entry0, [], [], dev a))"

text \<open>Lines 434 to 483: the container and the runner project of the platform.\<close>

definition runOnPlatform ::
  "env \<Rightarrow> string \<Rightarrow> descriptor option \<Rightarrow> string \<Rightarrow> string list \<Rightarrow> dependencyPath list \<Rightarrow>
   bool option \<Rightarrow> unit prog" where
  "runOnPlatform env pf napDescriptor entryMiniAppName dependenciesObjs miniAppsPaths dev' =
     (if pf = ''android'' then
        andThen (generateContainerForRunner env pf napDescriptor dependenciesObjs miniAppsPaths)
          (\<lambda>_.
        andThen
          (if \<not> fsExistsSync env (pathJoin (cwd env) pf) then
             andThen (say (ShellMkdir (pathJoin (cwd env) pf))) (\<lambda>_.
               spin ''Generating Android Runner project'' env
                 (GenerateAndroidRunnerProject (currentPlatformVersionPath env)
                    (pathJoin (cwd env) pf) (pathJoin (rootDirectory env) ''containergen'')
                    entryMiniAppName dev'))
           else
             spin ''Regenerating Android Runner Configuration'' env
               (RegenerateAndroidRunnerConfig (currentPlatformVersionPath env)
                  (pathJoin (cwd env) pf) entryMiniAppName dev'))
          (\<lambda>_. launchAndroidRunner env (pathJoin (cwd env) pf)))
      else if pf = ''ios'' then
        andThen (generateContainerForRunner env pf napDescriptor dependenciesObjs miniAppsPaths)
          (\<lambda>_.
        andThen
          (if \<not> fsExistsSync env (pathJoin (cwd env) pf) then
             andThen (say (ShellMkdir (pathJoin (cwd env) pf))) (\<lambda>_.
               spin ''Generating iOS Runner project'' env
                 (GenerateIosRunnerProject (currentPlatformVersionPath env)
                    (pathJoin (cwd env) pf) (pathJoin (rootDirectory env) ''containergen'')
                    entryMiniAppName dev'))
           else
             spin ''Regenerating iOS Runner Configuration'' env
               (RegenerateIosRunnerConfig (currentPlatformVersionPath env)
                  (pathJoin (cwd env) pf) (pathJoin (rootDirectory env) ''containergen'')
                  entryMiniAppName dev'))
          (\<lambda>_. launchIosRunner env (pathJoin (cwd env) pf)))
      else throw (newError (''Unsupported platform : '' @ pf)))"

definition runMiniApp :: "env \<Rightarrow> string \<Rightarrow> runMiniAppOptions \<Rightarrow> unit prog" where
  "runMiniApp env pf a =
     andThen (throwIf
                (case miniapps a of
                   None \<Rightarrow> False
                 | Some ms \<Rightarrow> length ms > 1 \<and> \<not> truthy (mainMiniAppName a))
                (newError ''If you provide multiple MiniApps you need to provide the name of the MiniApp to launch''))
       (\<lambda>_.
     andThen (throwIf
                (case miniapps a of
                   None \<Rightarrow> False
                 | Some ms \<Rightarrow> length ms > 1 \<and> truthyFlag (dev a))
                (newError ''You cannot enable development mode yet when running multiple MiniApps''))
       (\<lambda>_.
     andThen (throwIf
                (case dependencies a of
                   None \<Rightarrow> False
                 | Some ds \<Rightarrow> length ds > 0 \<and> truthy (descriptor a))
                (newError ''You cannot pass extra native dependencies when using a Native Application Descriptor''))
       (\<lambda>_.
     andThen (throwIf (miniapps a \<noteq> None \<and> truthy (descriptor a))
                (newError ''You cannot use miniapps and descriptor at the same time''))
       (\<lambda>_.
     andThen (checkedDescriptor env a) (\<lambda>napDescriptor.
     andThen (runnerInputs env a) (\<lambda>(entryMiniAppName, dependenciesObjs, miniAppsPaths, dev').
       runOnPlatform env pf napDescriptor entryMiniAppName dependenciesObjs miniAppsPaths
         dev'))))))"

section \<open>Observations on a trace\<close>

text \<open>The checks that were run, the calls that were made and the calls that came back.\<close>

fun ensured :: "event list \<Rightarrow> ensure list" where
  "ensured [] = []"
| "ensured (Invoked (Ensure k) # evs) = k # ensured evs"
| "ensured (ev # evs) = ensured evs"

fun invoked :: "event list \<Rightarrow> call list" where
  "invoked [] = []"
| "invoked (Invoked c # evs) = c # invoked evs"
| "invoked (ev # evs) = invoked evs"

fun resolved :: "event list \<Rightarrow> call list" where
  "resolved [] = []"
| "resolved (Resolved c # evs) = c # resolved evs"
| "resolved (ev # evs) = resolved evs"

text \<open>
  The events of the steps of an update: calls made, come back or failed, the discard
  of the \<open>catch\<close> block apart.
\<close>

fun isStepEvent :: "event \<Rightarrow> bool" where
  "isStepEvent (Invoked c) = (c \<noteq> DiscardTransaction)"
| "isStepEvent (Resolved c) = True"
| "isStepEvent (Rejected c e) = True"
| "isStepEvent ev = False"

text \<open>
  \<open>follows cs evs\<close>: the events are the calls of \<open>cs\<close>, in this order and from the first
  one on, each made and come back before the next is made; the events may stop early,
  and then the last call may have failed instead.
\<close>

fun follows :: "call list \<Rightarrow> event list \<Rightarrow> bool" where
  "follows cs [] = True"
| "follows (c # cs) [Invoked c1, Rejected c2 e] = (c1 = c \<and> c2 = c)"
| "follows (c # cs) (Invoked c1 # Resolved c2 # evs) = (c1 = c \<and> c2 = c \<and> follows cs evs)"
| "follows cs evs = False"

text \<open>\<open>precedes a b evs\<close>: \<open>b\<close> does not occur in \<open>evs\<close> before \<open>a\<close> has occurred.\<close>

fun precedes :: "event \<Rightarrow> event \<Rightarrow> event list \<Rightarrow> bool" where
  "precedes a b [] = True"
| "precedes a b (ev # evs) =
     (if ev = a then True else if ev = b then False else precedes a b evs)"

text \<open>
  The steps of the \<open>try\<close> block of an update: opening the transaction, the mutation,
  the generation of the container, the write of the version pointer, the commit.
\<close>

fun isUpdateStep :: "call \<Rightarrow> bool" where
  "isUpdateStep BeginTransaction = True"
| "isUpdateStep StateUpdateFunc = True"
| "isUpdateStep (RunCauldronContainerGen d v p n) = True"
| "isUpdateStep (UpdateContainerVersion d v) = True"
| "isUpdateStep CommitTransaction = True"
| "isUpdateStep c = False"

text \<open>The place of a check in the order of the source.\<close>

fun checkRank :: "ensure \<Rightarrow> nat" where
  "checkRank (CauldronIsActive x) = 0"
| "checkRank (IsValidContainerVersion v x) = 1"
| "checkRank (IsNewerContainerVersion d v x) = 2"
| "checkRank (IsCompleteNapDescriptorString d x) = 3"
| "checkRank (NoGitOrFilesystemPath obj x) = 4"
| "checkRank (NapDescritorExistsInCauldron d x) = 5"
| "checkRank (NapDescritorDoesNotExistsInCauldron d x) = 6"
| "checkRank (PublishedToNpm obj x) = 7"
| "checkRank (MiniAppNotInNativeApplicationVersionContainer m d x) = 8"
| "checkRank (MiniAppIsInNativeApplicationVersionContainer m d x) = 9"
| "checkRank (MiniAppIsInNativeApplicationVersionContainerWithDifferentVersion m d x) = 10"
| "checkRank (DependencyNotInNativeApplicationVersionContainer m d x) = 11"
| "checkRank (DependencyIsInNativeApplicationVersionContainer m d x) = 12"
| "checkRank (DependencyIsInNativeApplicationVersionContainerWithDifferentVersion m d x) = 13"
| "checkRank (DependencyNotInUseByAMiniApp m d x) = 14"

section \<open>The checker and the update in closed form\<close>

text \<open>
  What \<open>runChecks\<close> leaves in the trace, and the error it ends with, as functions of the
  list of checks.
\<close>

fun checkEvents :: "env \<Rightarrow> (string \<times> ensure) list \<Rightarrow> event list" where
  "checkEvents env [] = []"
| "checkEvents env ((t, c) # cs) =
     [SpinnerText t, Invoked (Ensure c)] @
     (case failure env (Ensure c) of
        Some e \<Rightarrow> [Rejected (Ensure c) e]
      | None \<Rightarrow> Resolved (Ensure c) # checkEvents env cs)"

fun firstFailure :: "env \<Rightarrow> (string \<times> ensure) list \<Rightarrow> error option" where
  "firstFailure env [] = None"
| "firstFailure env ((t, c) # cs) =
     (case failure env (Ensure c) of Some e \<Rightarrow> Some e | None \<Rightarrow> firstFailure env cs)"

text \<open>
  The \<open>try\<close> block and the \<open>catch\<close> block of \<open>performContainerStateUpdateInCauldron\<close>
  on their own, and the \<open>try\<close> block as a list of steps, each with the message of its
  spinner if it has one.
\<close>

definition tryBlock ::
  "env \<Rightarrow> (document \<Rightarrow> error option \<times> document) \<Rightarrow> descriptor \<Rightarrow> string option \<Rightarrow> unit prog" where
  "tryBlock env stateUpdateFunc napDescriptor v =
     andThen (await env BeginTransaction) (\<lambda>_.
     andThen (awaitWith StateUpdateFunc (onDocument stateUpdateFunc)) (\<lambda>_.
     andThen (spin (''Generating new container version '' @ showVersion v @ '' for '' @
                    napDescriptor)
                env (RunCauldronContainerGen napDescriptor v True None)) (\<lambda>_.
     andThen (await env (UpdateContainerVersion napDescriptor v)) (\<lambda>_.
     andThen (spin ''Updating Cauldron'' env CommitTransaction) (\<lambda>_.
     say (Log DebugLevel (''Published new container version '' @ showVersion v @
                          '' for '' @ napDescriptor)))))))"

definition catchBlock :: "error \<Rightarrow> unit prog" where
  "catchBlock e =
     andThen (say (Log ErrorLevel
                (''[performContainerStateUpdateInCauldron] An error happened '' @
                 errorToString e))) (\<lambda>_.
     andThen (invoke DiscardTransaction) (\<lambda>_.
     throw e))"

definition steps :: "descriptor \<Rightarrow> string option \<Rightarrow> (string option \<times> call) list" where
  "steps d v =
     [(None, BeginTransaction),
      (None, StateUpdateFunc),
      (Some (''Generating new container version '' @ showVersion v @ '' for '' @ d),
       RunCauldronContainerGen d v True None),
      (None, UpdateContainerVersion d v),
      (Some ''Updating Cauldron'', CommitTransaction)]"

definition act ::
  "env \<Rightarrow> (document \<Rightarrow> error option \<times> document) \<Rightarrow> call \<Rightarrow> store \<Rightarrow> error option \<times> store" where
  "act env f c = (if c = StateUpdateFunc then onDocument f else perform env c)"

definition spinEvent :: "string option \<Rightarrow> event list" where
  "spinEvent m = (case m of None \<Rightarrow> [] | Some msg \<Rightarrow> [Spin msg])"

fun stepsError ::
  "env \<Rightarrow> (document \<Rightarrow> error option \<times> document) \<Rightarrow> (string option \<times> call) list \<Rightarrow> store \<Rightarrow>
   error option" where
  "stepsError env f [] s = None"
| "stepsError env f ((m, c) # cs) s =
     (case act env f c s of (Some e, s') \<Rightarrow> Some e | (None, s') \<Rightarrow> stepsError env f cs s')"

fun stepsStore ::
  "env \<Rightarrow> (document \<Rightarrow> error option \<times> document) \<Rightarrow> (string option \<times> call) list \<Rightarrow> store \<Rightarrow>
   store" where
  "stepsStore env f [] s = s"
| "stepsStore env f ((m, c) # cs) s =
     (case act env f c s of (Some e, s') \<Rightarrow> s' | (None, s') \<Rightarrow> stepsStore env f cs s')"

fun stepsEvents ::
  "env \<Rightarrow> (document \<Rightarrow> error option \<times> document) \<Rightarrow> (string option \<times> call) list \<Rightarrow> store \<Rightarrow>
   event list" where
  "stepsEvents env f [] s = []"
| "stepsEvents env f ((m, c) # cs) s =
     Invoked c # spinEvent m @
     (case act env f c s of
        (Some e, s') \<Rightarrow> [Rejected c e]
      | (None, s') \<Rightarrow> Resolved c # stepsEvents env f cs s')"

text \<open>
  The version an update selects when the read of the store succeeds, the calls and
  events of the selection, and the calls of a whole update in the order the
  specification gives: version selection, transaction open, mutation, generation with
  publish enabled, write of the version pointer, commit.
\<close>

definition selectedVersion :: "descriptor \<Rightarrow> updateOptions \<Rightarrow> store \<Rightarrow> string option" where
  "selectedVersion d opts s =
     (if truthy (containerVersion opts) then containerVersion opts
      else case containerVersions (current s) d of
             None \<Rightarrow> Some ''1.0.0''
           | Some v \<Rightarrow> if v \<noteq> [] then semverInc v Patch else Some ''1.0.0'')"

definition selectionCalls :: "descriptor \<Rightarrow> updateOptions \<Rightarrow> call list" where
  "selectionCalls d opts =
     (if truthy (containerVersion opts) then [] else [GetTopLevelContainerVersion d])"

definition selectionEvents :: "descriptor \<Rightarrow> updateOptions \<Rightarrow> event list" where
  "selectionEvents d opts =
     (if truthy (containerVersion opts) then []
      else [Invoked (GetTopLevelContainerVersion d), Resolved (GetTopLevelContainerVersion d)])"

definition plan :: "descriptor \<Rightarrow> updateOptions \<Rightarrow> store \<Rightarrow> call list" where
  "plan d opts s =
     selectionCalls d opts @
     [BeginTransaction, StateUpdateFunc,
      RunCauldronContainerGen d (selectedVersion d opts s) True None,
      UpdateContainerVersion d (selectedVersion d opts s), CommitTransaction]"

section \<open>Properties in the words of the specification\<close>

text \<open>``The transaction is closed'': no transaction is open in the store.\<close>

definition transactionClosed :: "world \<Rightarrow> bool" where
  "transactionClosed w = (transaction (cauldronStore w) = None)"

text \<open>
  ``The present checks'': \<open>requested c k\<close> says that the check \<open>k\<close> is the check of an
  entry that is present in the precondition specification \<open>c\<close>, with the arguments this
  entry gives.
\<close>

fun requested :: "preconditions \<Rightarrow> ensure \<Rightarrow> bool" where
  "requested c (CauldronIsActive x) = (cauldronIsActive c = Some x)"
| "requested c (IsValidContainerVersion v x) = (isValidContainerVersion c = Some (v, x))"
| "requested c (IsNewerContainerVersion d v x) = (isNewerContainerVersion c = Some (d, v, x))"
| "requested c (IsCompleteNapDescriptorString d x) =
     (isCompleteNapDescriptorString c = Some (d, x))"
| "requested c (NoGitOrFilesystemPath obj x) = (noGitOrFilesystemPath c = Some (obj, x))"
| "requested c (NapDescritorExistsInCauldron d x) =
     (napDescriptorExistInCauldron c = Some (d, x))"
| "requested c (NapDescritorDoesNotExistsInCauldron d x) =
     (napDescritorDoesNotExistsInCauldron c = Some (d, x))"
| "requested c (PublishedToNpm obj x) = (publishedToNpm c = Some (obj, x))"
| "requested c (MiniAppNotInNativeApplicationVersionContainer m d x) =
     (miniAppNotInNativeApplicationVersionContainer c = Some (m, d, x))"
| "requested c (MiniAppIsInNativeApplicationVersionContainer m d x) =
     (miniAppIsInNativeApplicationVersionContainer c = Some (m, d, x))"
| "requested c (MiniAppIsInNativeApplicationVersionContainerWithDifferentVersion m d x) =
     (miniAppIsInNativeApplicationVersionContainerWithDifferentVersion c = Some (m, d, x))"
| "requested c (DependencyNotInNativeApplicationVersionContainer m d x) =
     (dependencyNotInNativeApplicationVersionContainer c = Some (m, d, x))"
| "requested c (DependencyIsInNativeApplicationVersionContainer m d x) =
     (dependencyIsInNativeApplicationVersionContainer c = Some (m, d, x))"
| "requested c (DependencyIsInNativeApplicationVersionContainerWithDifferentVersion m d x) =
     (dependencyIsInNativeApplicationVersionContainerWithDifferentVersion c = Some (m, d, x))"
| "requested c (DependencyNotInUseByAMiniApp m d x) =
     (dependencyNotInUseByAMiniApp c = Some (m, d, x))"

text \<open>``A \<open>StateStoreUnavailable\<close> error'': an error of this name.\<close>

definition isStateStoreUnavailable :: "error \<Rightarrow> bool" where
  "isStateStoreUnavailable e = (errorName e = ''StateStoreUnavailable'')"

text \<open>
  The inconsistent combinations of inputs of \<open>runMiniApp\<close>: more than one mini-app
  without a main mini-app name, more than one mini-app with development mode enabled, a
  non-empty list of native dependencies together with a descriptor, mini-apps together
  with a descriptor. In \<open>inconsistentInputsAsStated\<close> a name or a descriptor is there
  when the option is given; in \<open>inconsistentInputs\<close> it is there when the option is
  given and is not the empty string.
\<close>

definition inconsistentInputsAsStated :: "runMiniAppOptions \<Rightarrow> bool" where
  "inconsistentInputsAsStated a =
     (((case miniapps a of None \<Rightarrow> False | Some ms \<Rightarrow> 1 < length ms) \<and>
       mainMiniAppName a = None) \<or>
      ((case miniapps a of None \<Rightarrow> False | Some ms \<Rightarrow> 1 < length ms) \<and> dev a = Some True) \<or>
      ((case dependencies a of None \<Rightarrow> False | Some ds \<Rightarrow> ds \<noteq> []) \<and>
       descriptor a \<noteq> None) \<or>
      (miniapps a \<noteq> None \<and> descriptor a \<noteq> None))"

definition inconsistentInputs :: "runMiniAppOptions \<Rightarrow> bool" where
  "inconsistentInputs a =
     (((case miniapps a of None \<Rightarrow> False | Some ms \<Rightarrow> 1 < length ms) \<and>
       \<not> truthy (mainMiniAppName a)) \<or>
      ((case miniapps a of None \<Rightarrow> False | Some ms \<Rightarrow> 1 < length ms) \<and> dev a = Some True) \<or>
      ((case dependencies a of None \<Rightarrow> False | Some ds \<Rightarrow> ds \<noteq> []) \<and>
       truthy (descriptor a)) \<or>
      (miniapps a \<noteq> None \<and> truthy (descriptor a)))"

text \<open>The four errors the checks of \<open>runMiniApp\<close> on its inputs throw.\<close>

definition usageErrors :: "error list" where
  "usageErrors =
     [newError ''If you provide multiple MiniApps you need to provide the name of the MiniApp to launch'',
      newError ''You cannot enable development mode yet when running multiple MiniApps'',
      newError ''You cannot pass extra native dependencies when using a Native Application Descriptor'',
      newError ''You cannot use miniapps and descriptor at the same time'']"

section \<open>Example environments\<close>

definition emptyDocument :: document where
  "emptyDocument = \<lparr>containerVersions = (\<lambda>_. None), containerEntries = (\<lambda>_. [])\<rparr>"

definition emptyStore :: store where
  "emptyStore = \<lparr>committed = emptyDocument, transaction = None\<rparr>"

definition storeRecording :: "descriptor \<Rightarrow> string \<Rightarrow> store" where
  "storeRecording d v =
     \<lparr>committed =
        emptyDocument\<lparr>containerVersions := (containerVersions emptyDocument)(d := Some v)\<rparr>,
      transaction = None\<rparr>"

text \<open>An environment in which every call succeeds.\<close>

definition quietEnv :: env where
  "quietEnv =
     \<lparr>failure = (\<lambda>_. None),
      nativeApps =
        [\<lparr>appName = ''MyApp'',
          platforms =
            [\<lparr>platformName = ''android'',
              versions = [\<lparr>versionName = ''1.0.0'', isReleased = True\<rparr>,
                          \<lparr>versionName = ''1.1.0'', isReleased = False\<rparr>]\<rparr>,
             \<lparr>platformName = ''ios'',
              versions = [\<lparr>versionName = ''1.0.0'', isReleased = True\<rparr>]\<rparr>]\<rparr>],
      cwd = ''/home/dev/MyMiniApp'',
      miniAppExistInPath = (\<lambda>_. True),
      miniAppNameAt = (\<lambda>_. ''MyMiniApp''),
      fsExistsSync = (\<lambda>_. False),
      currentPlatformVersionPath = ''/home/dev/.ern/versions/0.8.0'',
      rootDirectory = ''/home/dev/.ern'',
      iPhoneDevice = (''0000-1111'', ''iPhone 7''),
      xcodebuildExitCode = Some 0\<rparr>"

text \<open>The same environment, but call \<open>c\<close> fails with \<open>e\<close>.\<close>

definition failing :: "call \<Rightarrow> error \<Rightarrow> env" where
  "failing c e = quietEnv\<lparr>failure := (\<lambda>c'. if c' = c then Some e else None)\<rparr>"

definition noMutation :: "document \<Rightarrow> error option \<times> document" where
  "noMutation doc = (None, doc)"

text \<open>
  A mutation that fails after it has changed the document: the entries and the version
  pointer of every descriptor.
\<close>

definition failingMutation :: "error \<Rightarrow> document \<Rightarrow> error option \<times> document" where
  "failingMutation e doc =
     (Some e,
      doc\<lparr>containerEntries := (\<lambda>_. [''half-written'']),
          containerVersions := (\<lambda>_. Some ''9.9.9'')\<rparr>)"

definition myApp :: descriptor where
  "myApp = ''MyApp:android:1.0.0''"

definition defaultVersion :: updateOptions where
  "defaultVersion = \<lparr>containerVersion = None\<rparr>"

definition generation :: call where
  "generation = RunCauldronContainerGen myApp (Some ''2.1.1'') True None"

definition buildFailed :: error where
  "buildFailed = newError ''Container generation failed''"

definition mutationFailed :: error where
  "mutationFailed = newError ''MiniApp is already in the container''"

definition transactionPending :: error where
  "transactionPending = newError ''A transaction is already pending''"

definition notActive :: error where
  "notActive = newError ''There is no active Cauldron''"

definition incomplete :: error where
  "incomplete = newError ''The native application descriptor is not complete''"

definition invalidVersion :: error where
  "invalidVersion = newError ''Container version is not valid''"

text \<open>
  Preconditions with the keys \<open>cauldronIsActive\<close> and \<open>isCompleteNapDescriptorString\<close>,
  and preconditions with the keys \<open>isValidContainerVersion\<close> and \<open>publishedToNpm\<close>.
\<close>

definition activeAndComplete :: preconditions where
  "activeAndComplete =
     noPreconditions\<lparr>cauldronIsActive := Some None,
                     isCompleteNapDescriptorString := Some (myApp, None)\<rparr>"

definition validAndPublished :: preconditions where
  "validAndPublished =
     noPreconditions\<lparr>isValidContainerVersion := Some (''banana'', None),
                     publishedToNpm := Some ([''my-miniapp@1.0.0''], None)\<rparr>"

definition twoMiniApps :: runMiniAppOptions where
  "twoMiniApps =
     \<lparr>mainMiniAppName = None, miniapps = Some [''first-miniapp'', ''second-miniapp''],
      dependencies = None, descriptor = None, dev = None\<rparr>"

definition emptyDescriptor :: runMiniAppOptions where
  "emptyDescriptor =
     \<lparr>mainMiniAppName = None, miniapps = None,
      dependencies = Some [''react-native-code-push@1.16.1''], descriptor = Some [],
      dev = Some False\<rparr>"

definition noFilter :: napFilter where
  "noFilter = \<lparr>platform = None, onlyReleasedVersions = None, onlyNonReleasedVersions = None\<rparr>"

definition bothFilters :: napFilter where
  "bothFilters =
     \<lparr>platform = None, onlyReleasedVersions = Some True, onlyNonReleasedVersions = Some True\<rparr>"

section \<open>Lemmas on traces\<close>

lemma ensured_append [simp]: "ensured (xs @ ys) = ensured xs @ ensured ys"
  by (induction xs rule: ensured.induct) simp_all

lemma set_ensured [simp]: "k \<in> set (ensured tr) \<longleftrightarrow> Invoked (Ensure k) \<in> set tr"
  by (induction tr rule: ensured.induct) auto

lemma invoked_append [simp]: "invoked (xs @ ys) = invoked xs @ invoked ys"
  by (induction xs rule: invoked.induct) simp_all

lemma resolved_append [simp]: "resolved (xs @ ys) = resolved xs @ resolved ys"
  by (induction xs rule: resolved.induct) simp_all

lemma set_invoked: "c \<in> set (invoked tr) \<longleftrightarrow> Invoked c \<in> set tr"
  by (induction tr rule: invoked.induct) auto

lemma filter_spinEvent [simp]: "filter isStepEvent (spinEvent m) = []"
  by (cases m) (simp_all add: spinEvent_def)

lemma resolved_spinEvent [simp]: "resolved (spinEvent m) = []"
  by (cases m) (simp_all add: spinEvent_def)

lemma invoked_spinEvent [simp]: "invoked (spinEvent m) = []"
  by (cases m) (simp_all add: spinEvent_def)

lemma precedes_notin: "b \<notin> set evs \<Longrightarrow> precedes a b evs"
  by (induction evs) auto

lemma until_first_failure_take:
  "takeWhile P xs @ take 1 (dropWhile P xs) = take (Suc (length (takeWhile P xs))) xs"
  by (induction xs) auto

section \<open>Lemmas on the patch increment\<close>

lemma showNat_digit: "n < 10 \<Longrightarrow> showNat n = [''0123456789'' ! n]"
  by (simp add: showNat.simps)

lemma showNat_step:
  "\<not> n < 10 \<Longrightarrow> showNat n = showNat (n div 10) @ [''0123456789'' ! (n mod 10)]"
  by (subst showNat.simps) simp

lemma digit_cases: "k < 10 \<Longrightarrow> k \<in> {0, 1, 2, 3, 4, 5, 6, 7, 8, 9::nat}"
  by auto

lemma digitValue_digit: "k < 10 \<Longrightarrow> digitValue (''0123456789'' ! k) = Some k"
  using digit_cases[of k] by (auto simp: digitValue_def)

lemma digit_not_dot: "k < 10 \<Longrightarrow> ''0123456789'' ! k \<noteq> CHR ''.''"
  using digit_cases[of k] by auto

lemma digit_zero: "k < 10 \<Longrightarrow> (''0123456789'' ! k = CHR ''0'') = (k = 0)"
  using digit_cases[of k] by auto

lemma parseDigits_append:
  "parseDigits acc (xs @ ys) =
     (case parseDigits acc xs of None \<Rightarrow> None | Some n \<Rightarrow> parseDigits n ys)"
  by (induction xs arbitrary: acc) (simp_all split: option.splits)

lemma parseDigits_showNat: "parseDigits 0 (showNat n) = Some n"
proof (induction n rule: showNat.induct)
  case (1 n)
  show ?case
  proof (cases "n < 10")
    case True
    then show ?thesis by (simp add: showNat_digit digitValue_digit)
  next
    case False
    have "n mod 10 < 10" by simp
    with False 1 show ?thesis
      by (simp add: showNat_step parseDigits_append digitValue_digit)
  qed
qed

lemma showNat_nonempty: "showNat n \<noteq> []"
  by (cases "n < 10") (simp_all add: showNat_digit showNat_step)

lemma hd_showNat: "(hd (showNat n) = CHR ''0'') = (n = 0)"
proof (induction n rule: showNat.induct)
  case (1 n)
  show ?case
  proof (cases "n < 10")
    case True
    then show ?thesis by (simp add: showNat_digit digit_zero)
  next
    case False
    then have "n div 10 \<noteq> 0" by simp
    with False 1 show ?thesis
      by (simp add: showNat_step showNat_nonempty)
  qed
qed

lemma parseNumericIdentifier_showNat: "parseNumericIdentifier (showNat n) = Some n"
proof (cases "n = 0")
  case True
  then show ?thesis
    by (simp add: parseNumericIdentifier_def showNat_digit digitValue_def)
next
  case False
  then show ?thesis
    by (simp add: parseNumericIdentifier_def showNat_nonempty hd_showNat parseDigits_showNat)
qed

lemma dot_notin_showNat: "CHR ''.'' \<notin> set (showNat n)"
proof (induction n rule: showNat.induct)
  case (1 n)
  show ?case
  proof (cases "n < 10")
    case True
    then show ?thesis using digit_not_dot[of n] by (simp add: showNat_digit)
  next
    case False
    have "n mod 10 < 10" by simp
    with False 1 digit_not_dot[of "n mod 10"] show ?thesis
      by (simp add: showNat_step)
  qed
qed

lemma splitDots_no_dot: "CHR ''.'' \<notin> set s \<Longrightarrow> splitDots s = [s]"
  by (induction s) auto

lemma splitDots_dot: "CHR ''.'' \<notin> set a \<Longrightarrow> splitDots (a @ CHR ''.'' # b) = a # splitDots b"
  by (induction a) auto

lemma digit_mem: "k < 10 \<Longrightarrow> ''0123456789'' ! k \<in> set ''0123456789''"
  by (rule nth_mem) simp

lemma showNat_chars: "set (showNat n) \<subseteq> set ''0123456789''"
proof (induction n rule: showNat.induct)
  case (1 n)
  show ?case
  proof (cases "n < 10")
    case True
    then have "set (showNat n) = {''0123456789'' ! n}" by (simp add: showNat_digit)
    with digit_mem[OF True] show ?thesis by (simp del: set_simps)
  next
    case False
    have m: "n mod 10 < 10" by simp
    from False have "set (showNat n) = set (showNat (n div 10)) \<union> {''0123456789'' ! (n mod 10)}"
      by (simp add: showNat_step)
    with 1[OF False] digit_mem[OF m] show ?thesis by (simp del: set_simps)
  qed
qed

lemma length_showNat: "n < 10 ^ k \<Longrightarrow> 0 < k \<Longrightarrow> length (showNat n) \<le> k"
proof (induction n arbitrary: k rule: showNat.induct)
  case (1 n)
  show ?case
  proof (cases "n < 10")
    case True
    with 1(3) show ?thesis by (simp add: showNat_digit)
  next
    case False
    from 1(3) obtain j where k: "k = Suc j" by (cases k) auto
    from False 1(2) have j: "0 < j" by (cases j) (auto simp: k)
    from 1(2) have "n div 10 < 10 ^ j"
      by (simp add: k less_mult_imp_div_less)
    from 1(1)[OF False this j] show ?thesis
      by (simp add: showNat_step[OF False] k)
  qed
qed

lemma length_showNat_safe: "n \<le> maxSafeInteger \<Longrightarrow> length (showNat n) \<le> 16"
  by (rule length_showNat) (simp_all add: maxSafeInteger_def)

lemma versionString_chars: "set (versionString a b c) \<subseteq> set ''0123456789.''"
proof -
  have "set ''0123456789'' \<subseteq> set ''0123456789.''" by auto
  with showNat_chars[of a] showNat_chars[of b] showNat_chars[of c]
  have "set (showNat a) \<subseteq> set ''0123456789.''" "set (showNat b) \<subseteq> set ''0123456789.''"
    "set (showNat c) \<subseteq> set ''0123456789.''" by blast+
  then show ?thesis by (simp add: versionString_def del: set_simps) simp
qed

lemma versionString_nonempty: "versionString a b c \<noteq> []"
  by (simp add: versionString_def)

lemma dropWhile_none: "\<forall>x \<in> set xs. \<not> P x \<Longrightarrow> dropWhile P xs = xs"
  by (cases xs) simp_all

lemma trim_none: "\<forall>x \<in> set s. \<not> isWhiteSpace x \<Longrightarrow> trim s = s"
  by (simp add: trim_def dropWhile_none)

lemma splitAtFirst_none: "c \<notin> set s \<Longrightarrow> splitAtFirst c s = (s, None)"
  by (induction s) (auto simp: splitAtFirst_def)

lemma stripV_versionString: "stripV (versionString a b c) = versionString a b c"
proof -
  obtain x xs where s: "versionString a b c = x # xs"
    using versionString_nonempty[of a b c] by (cases "versionString a b c") auto
  with versionString_chars[of a b c] have "x \<noteq> CHR ''v''" by auto
  with s show ?thesis by (simp add: stripV_def)
qed

lemma parseCore_versionString:
  assumes "a \<le> maxSafeInteger" "b \<le> maxSafeInteger" "c \<le> maxSafeInteger"
  shows "parseCore (versionString a b c) = Some (a, b, c)"
proof -
  have "splitDots (versionString a b c) = [showNat a, showNat b, showNat c]"
    by (simp add: versionString_def splitDots_dot splitDots_no_dot dot_notin_showNat)
  with assms show ?thesis
    by (simp add: parseCore_def parseMainNumber_def parseNumericIdentifier_showNat)
qed

text \<open>
  A version \<open>MAJOR.MINOR.PATCH\<close> of three numbers up to 2^53 - 1 is parsed into these
  numbers, and its patch increment adds one to the patch component and keeps the rest,
  as in \<open>1.2.3 \<rightarrow> 1.2.4\<close>.
\<close>

lemma parseSemVer_plain:
  assumes "a \<le> maxSafeInteger" "b \<le> maxSafeInteger" "c \<le> maxSafeInteger"
  shows "parseSemVer (versionString a b c) =
           Some \<lparr>major = a, minor = b, patch = c, prerelease = [], build = []\<rparr>"
proof -
  let ?s = "versionString a b c"
  from assms have "length ?s \<le> 50"
    using length_showNat_safe[of a] length_showNat_safe[of b] length_showNat_safe[of c]
    by (simp add: versionString_def)
  then have len: "\<not> maxLength < length ?s" by (simp add: maxLength_def)
  have "\<forall>x \<in> set ?s. \<not> isWhiteSpace x"
    using versionString_chars[of a b c] by (auto simp: isWhiteSpace_def)
  then have t: "trim ?s = ?s" by (rule trim_none)
  have plus: "splitAtFirst (CHR ''+'') ?s = (?s, None)"
    using versionString_chars[of a b c] by (intro splitAtFirst_none) auto
  have minus: "splitAtFirst (CHR ''-'') ?s = (?s, None)"
    using versionString_chars[of a b c] by (intro splitAtFirst_none) auto
  show ?thesis
    by (simp add: parseSemVer_def len t stripV_versionString plus minus
        parseCore_versionString[OF assms] parsePrerelease_def parseBuild_def)
qed

lemma semverInc_plain:
  assumes "a \<le> maxSafeInteger" "b \<le> maxSafeInteger" "c \<le> maxSafeInteger"
  shows "semverInc (versionString a b c) Patch = Some (versionString a b (c + 1))"
  by (simp add: semverInc_def parseSemVer_plain[OF assms] incPatch_def formatSemVer_def)

lemma semverInc_parsed:
  "parseSemVer V = Some sv \<Longrightarrow>
   semverInc V Patch =
     Some (versionString (major sv) (minor sv)
             (if prerelease sv = [] then patch sv + 1 else patch sv))"
  by (simp add: semverInc_def incPatch_def formatSemVer_def)

lemma semverInc_2_1_0: "semverInc ''2.1.0'' Patch = Some ''2.1.1''"
  using semverInc_plain[of 2 1 0]
  by (simp add: versionString_def showNat_digit maxSafeInteger_def)

text \<open>
  The model on versions with a prerelease, with build identifiers, with a leading \<open>v\<close>
  or with white space around them, and on numbers with a leading zero or above
  2^53 - 1.
\<close>

lemmas semver_defs =
  semverInc_def parseSemVer_def maxLength_def maxSafeInteger_def trim_def isWhiteSpace_def
  stripV_def splitAtFirst_def parseCore_def parseMainNumber_def parseNumericIdentifier_def
  parsePrerelease_def parsePrereleaseIdentifier_def parseBuild_def isIdentifierChar_def
  isDigit_def digitValue_def formatSemVer_def versionString_def showIdentifier_def
  incPatch_def incPre_def showNat.simps

lemma parseSemVer_beta:
  "parseSemVer ''1.2.3-beta.1'' =
     Some \<lparr>major = 1, minor = 2, patch = 3, prerelease = [Alphanumeric ''beta'', Numeric 1],
           build = []\<rparr>"
  by (simp add: semver_defs)

lemma semverInc_examples:
  "semverInc ''1.2.3-beta.1'' Patch = Some ''1.2.3''"
  "semverInc ''1.2.3+build.5'' Patch = Some ''1.2.4''"
  "semverInc ''v1.2.3'' Patch = Some ''1.2.4''"
  "semverInc '' 1.2.3 '' Patch = Some ''1.2.4''"
  "semverInc ''01.2.3'' Patch = None"
  "semverInc ''1.2'' Patch = None"
  "semverInc ''1.2.3-'' Patch = None"
  "semverInc ''9007199254740992.0.0'' Patch = None"
  "semverInc ''1.2.9007199254740991'' Patch = Some ''1.2.9007199254740992''"
  "semverInc ''1.2.3'' Minor = Some ''1.3.0''"
  "semverInc ''1.2.3'' Major = Some ''2.0.0''"
  "semverInc ''1.2.3-beta.1'' Prerelease = Some ''1.2.3-beta.2''"
  "semverInc ''1.2.3'' Prerelease = Some ''1.2.4-0''"
  by (simp_all add: semver_defs)

section \<open>Evaluation of the examples\<close>

lemmas example_defs =
  quietEnv_def failing_def noMutation_def failingMutation_def storeRecording_def
  emptyStore_def emptyDocument_def myApp_def defaultVersion_def generation_def
  buildFailed_def mutationFailed_def transactionPending_def notActive_def
  incomplete_def invalidVersion_def newError_def

lemmas prog_defs =
  andThen_def tryCatch_def await_def awaitWith_def awaitValue_def spin_def perform_def
  onDocument_def invoke_def say_def emit_def ret_def throw_def throwIf_def processExit_def
  start_def Let_def current_def store_write_def truthy_def truthyFlag_def showVersion_def
  errorToString_def

lemmas semver_eval = semverInc_2_1_0

lemmas update_eval =
  performContainerStateUpdateInCauldron_def cauldronContainerVersion_def
  awaitGetTopLevelContainerVersion_def prog_defs example_defs semver_eval

section \<open>getNapDescriptorStringsFromCauldron: the filters\<close>

lemma napDescriptorString_both:
  "onlyReleasedVersions f = Some True \<Longrightarrow> onlyNonReleasedVersions f = Some True \<Longrightarrow>
   napDescriptorString f a p v = None"
  by (simp add: napDescriptorString_def truthyFlag_def)

lemma napDescriptorString_Some:
  "napDescriptorString f a p v = Some x \<Longrightarrow>
   x = appName a @ '':'' @ platformName p @ '':'' @ versionName v"
  by (auto simp: napDescriptorString_def split: if_splits)

lemma getNapDescriptorStringsFromCauldron_eq:
  "getNapDescriptorStringsFromCauldron env f w =
     (case failure env GetAllNativeApps of
        Some e \<Rightarrow>
          (Throws e,
           w\<lparr>trace := trace w @ [Invoked GetAllNativeApps, Rejected GetAllNativeApps e]\<rparr>)
      | None \<Rightarrow>
          (Returns (filter (\<lambda>elt. elt \<noteq> None)
             (concat (concat
               (map (\<lambda>a. map (\<lambda>p. map (\<lambda>v. napDescriptorString f a p v) (versions p))
                              (platforms a))
                    (nativeApps env))))),
           w\<lparr>trace := trace w @ [Invoked GetAllNativeApps, Resolved GetAllNativeApps]\<rparr>))"
  by (simp add: getNapDescriptorStringsFromCauldron_def awaitValue_def andThen_def await_def
      awaitWith_def perform_def ret_def emit_def Let_def split: option.splits)

text \<open>
  Claim C10. Whatever native applications \<open>getAllNativeApps\<close> answers with: when
  \<open>onlyReleasedVersions\<close> and \<open>onlyNonReleasedVersions\<close> are both \<open>true\<close>,
  \<open>getNapDescriptorStringsFromCauldron\<close> returns the empty array; and every element of
  an array it returns is a defined string \<open>name:platform:version\<close>, made of the names of
  an application, of one of its platforms and of one of the versions of that platform
  (no \<open>undefined\<close> is left in the array).
\<close>

theorem nap_descriptor_strings_filtered:
  assumes "getNapDescriptorStringsFromCauldron env f w = (Returns xs, w')"
  shows "(onlyReleasedVersions f = Some True \<and> onlyNonReleasedVersions f = Some True \<longrightarrow>
            xs = []) \<and>
         (\<forall>x \<in> set xs.
            \<exists>a \<in> set (nativeApps env). \<exists>p \<in> set (platforms a). \<exists>v \<in> set (versions p).
              x = Some (appName a @ '':'' @ platformName p @ '':'' @ versionName v))"
proof -
  from assms have xs:
    "xs = filter (\<lambda>elt. elt \<noteq> None)
       (concat (concat
         (map (\<lambda>a. map (\<lambda>p. map (\<lambda>v. napDescriptorString f a p v) (versions p)) (platforms a))
              (nativeApps env))))"
    by (auto simp: getNapDescriptorStringsFromCauldron_eq split: option.splits)
  have "xs = []"
    if "onlyReleasedVersions f = Some True" "onlyNonReleasedVersions f = Some True"
    unfolding xs using napDescriptorString_both[OF that]
    by (auto simp: filter_empty_conv)
  moreover have
    "\<exists>a \<in> set (nativeApps env). \<exists>p \<in> set (platforms a). \<exists>v \<in> set (versions p).
       x = Some (appName a @ '':'' @ platformName p @ '':'' @ versionName v)"
    if "x \<in> set xs" for x
  proof -
    from that obtain a p v where
      "a \<in> set (nativeApps env)" "p \<in> set (platforms a)" "v \<in> set (versions p)"
      "x = napDescriptorString f a p v" "x \<noteq> None"
      unfolding xs by auto
    moreover from this obtain y where "napDescriptorString f a p v = Some y" by (cases x) auto
    ultimately show ?thesis using napDescriptorString_Some by blast
  qed
  ultimately show ?thesis by blast
qed

text \<open>
  With one application of three versions: both filters give the empty array, no filter
  gives the three descriptor strings.
\<close>

theorem nap_descriptor_strings_filtered_witness:
  "fst (getNapDescriptorStringsFromCauldron quietEnv bothFilters (start emptyStore)) =
     Returns [] \<and>
   fst (getNapDescriptorStringsFromCauldron quietEnv noFilter (start emptyStore)) =
     Returns [Some ''MyApp:android:1.0.0'', Some ''MyApp:android:1.1.0'',
              Some ''MyApp:ios:1.0.0''] \<and>
   (\<exists>a \<in> set (nativeApps quietEnv). \<exists>p \<in> set (platforms a). \<exists>v \<in> set (versions p).
      Some ''MyApp:android:1.1.0'' =
        Some (appName a @ '':'' @ platformName p @ '':'' @ versionName v))"
proof -
  let ?both = "getNapDescriptorStringsFromCauldron quietEnv bothFilters (start emptyStore)"
  let ?none = "getNapDescriptorStringsFromCauldron quietEnv noFilter (start emptyStore)"
  have flags: "onlyReleasedVersions bothFilters = Some True \<and>
               onlyNonReleasedVersions bothFilters = Some True"
    by (simp add: bothFilters_def)
  obtain xs w1 where both: "?both = (Returns xs, w1)"
    by (cases ?both) (auto simp: getNapDescriptorStringsFromCauldron_eq quietEnv_def)
  obtain w2 where none: "?none =
      (Returns [Some ''MyApp:android:1.0.0'', Some ''MyApp:android:1.1.0'',
                Some ''MyApp:ios:1.0.0''], w2)"
    by (simp add: getNapDescriptorStringsFromCauldron_eq napDescriptorString_def
        noFilter_def quietEnv_def truthy_def truthyFlag_def)
  from nap_descriptor_strings_filtered[OF both] flags have "xs = []" by blast
  with both have "fst ?both = Returns []" by simp
  moreover from none have "fst ?none =
      Returns [Some ''MyApp:android:1.0.0'', Some ''MyApp:android:1.1.0'',
               Some ''MyApp:ios:1.0.0'']" by simp
  moreover from nap_descriptor_strings_filtered[OF none]
  have "\<exists>a \<in> set (nativeApps quietEnv). \<exists>p \<in> set (platforms a). \<exists>v \<in> set (versions p).
      Some ''MyApp:android:1.1.0'' =
        Some (appName a @ '':'' @ platformName p @ '':'' @ versionName v)"
    by simp
  ultimately show ?thesis by blast
qed

section \<open>logErrorAndExitIfNotSatisfied: order and exit\<close>

lemma await_Ensure:
  "await env (Ensure c) w =
     (case failure env (Ensure c) of
        Some e \<Rightarrow>
          (Throws e, w\<lparr>trace := trace w @ [Invoked (Ensure c), Rejected (Ensure c) e]\<rparr>)
      | None \<Rightarrow>
          (Returns (), w\<lparr>trace := trace w @ [Invoked (Ensure c), Resolved (Ensure c)]\<rparr>))"
  by (simp add: await_def awaitWith_def perform_def emit_def Let_def split: option.splits)

lemma runChecks_eq:
  "runChecks env cs w =
     ((case firstFailure env cs of None \<Rightarrow> Returns () | Some e \<Rightarrow> Throws e),
      w\<lparr>trace := trace w @ checkEvents env cs\<rparr>)"
proof (induction cs arbitrary: w)
  case Nil
  then show ?case by simp
next
  case (Cons tc cs)
  obtain t c where tc: "tc = (t, c)" by (cases tc)
  show ?case
    by (cases "failure env (Ensure c)") (simp_all add: tc await_Ensure emit_def Cons.IH)
qed

lemma logErrorAndExitIfNotSatisfied_eq:
  "logErrorAndExitIfNotSatisfied env c w =
     (case firstFailure env (presentChecks c) of
        None \<Rightarrow>
          (Returns (),
           w\<lparr>trace := trace w @ [SpinnerStart ''Performing initial checks''] @
              checkEvents env (presentChecks c) @
              [SpinnerSucceed ''All initial checks have passed'']\<rparr>)
      | Some e \<Rightarrow>
          (Exits 1,
           w\<lparr>trace := trace w @ [SpinnerStart ''Performing initial checks''] @
              checkEvents env (presentChecks c) @
              [SpinnerFail (message e), ProcessExit 1]\<rparr>))"
  by (simp add: logErrorAndExitIfNotSatisfied_def andThen_def tryCatch_def say_def emit_def
      processExit_def runChecks_eq split: option.splits)

lemma ensured_checkEvents:
  "ensured (checkEvents env cs) =
     takeWhile (\<lambda>k. failure env (Ensure k) = None) (map snd cs) @
     take 1 (dropWhile (\<lambda>k. failure env (Ensure k) = None) (map snd cs))"
  by (induction cs) (auto split: option.splits)

lemma firstFailure_Some:
  "firstFailure env cs = Some e \<Longrightarrow>
   \<exists>k pre. k \<in> snd ` set cs \<and> failure env (Ensure k) = Some e \<and>
     checkEvents env cs = pre @ [Rejected (Ensure k) e]"
proof (induction cs)
  case Nil
  then show ?case by simp
next
  case (Cons tc cs)
  obtain t c where tc: "tc = (t, c)" by (cases tc)
  show ?case
  proof (cases "failure env (Ensure c)")
    case None
    with Cons.prems have "firstFailure env cs = Some e" by (simp add: tc)
    from Cons.IH[OF this] obtain k pre where
      "k \<in> snd ` set cs" "failure env (Ensure k) = Some e"
      "checkEvents env cs = pre @ [Rejected (Ensure k) e]" by blast
    with None show ?thesis
      by (intro exI[of _ k]
            exI[of _ "[SpinnerText t, Invoked (Ensure c), Resolved (Ensure c)] @ pre"])
         (simp add: tc)
  next
    case (Some e0)
    with Cons.prems have "e0 = e" by (simp add: tc)
    with Some show ?thesis
      by (intro exI[of _ c] exI[of _ "[SpinnerText t, Invoked (Ensure c)]"]) (simp add: tc)
  qed
qed

lemma firstFailure_None:
  "firstFailure env cs = None \<longleftrightarrow> (\<forall>k \<in> snd ` set cs. failure env (Ensure k) = None)"
  by (induction cs) (auto split: option.splits)

lemma in_whenPresent [simp]:
  "e \<in> set (whenPresent x t f) \<longleftrightarrow> (\<exists>a. x = Some a \<and> e = (t, f a))"
  by (cases x) (auto simp: whenPresent_def)

lemma sorted_whenPresent [simp]: "sorted_wrt P (whenPresent x t f)"
  by (cases x) (simp_all add: whenPresent_def)

text \<open>Whatever entries are present, their checks stand in the one order of the source.\<close>

lemma presentChecks_ranked:
  "sorted_wrt (\<lambda>a b. checkRank (snd a) < checkRank (snd b)) (presentChecks c)"
  unfolding presentChecks_def sorted_wrt_append
  by (auto simp: split_def)

lemma snd_whenPresent [simp]:
  "k \<in> snd ` set (whenPresent x t f) \<longleftrightarrow> (\<exists>a. x = Some a \<and> k = f a)"
  by (cases x) (auto simp: whenPresent_def)

text \<open>The blocks of the source are the checks of the present entries, and no others.\<close>

lemma presentChecks_requested: "k \<in> snd ` set (presentChecks c) \<longleftrightarrow> requested c k"
  by (cases k) (auto simp: presentChecks_def image_Un)

text \<open>
  The checks that are run out of a list in which each check passes or fails: all of
  them up to and with the first that fails.
\<close>

lemma until_first_failure_subset:
  "set (takeWhile P xs @ take 1 (dropWhile P xs)) \<subseteq> set xs"
  by (auto dest: set_takeWhileD in_set_takeD set_dropWhileD)

lemma until_first_failure_complete:
  assumes "sorted_wrt (\<lambda>a b. rank a < (rank b :: nat)) xs" and "k \<in> set xs"
    and "\<forall>k' \<in> set xs. rank k' < rank k \<longrightarrow> P k'"
  shows "k \<in> set (takeWhile P xs @ take 1 (dropWhile P xs))"
  using assms
proof (induction xs)
  case Nil
  then show ?case by simp
next
  case (Cons x xs)
  show ?case
  proof (cases "k = x")
    case True
    then show ?thesis by simp
  next
    case False
    with Cons.prems have k: "k \<in> set xs" and "rank x < rank k" by auto
    with Cons.prems(3) have "P x" by simp
    moreover from Cons.prems have "sorted_wrt (\<lambda>a b. rank a < rank b) xs"
      and "\<forall>k' \<in> set xs. rank k' < rank k \<longrightarrow> P k'" by auto
    from Cons.IH[OF this(1) k this(2)]
    have "k \<in> set (takeWhile P xs @ take 1 (dropWhile P xs))" .
    ultimately show ?thesis by simp
  qed
qed

lemma until_first_failure_last:
  assumes "sorted_wrt (\<lambda>a b. rank a < (rank b :: nat)) xs"
    and "k \<in> set (takeWhile P xs @ take 1 (dropWhile P xs))" and "\<not> P k"
    and "k' \<in> set (takeWhile P xs @ take 1 (dropWhile P xs))"
  shows "rank k' \<le> rank k"
  using assms
proof (induction xs)
  case Nil
  then show ?case by simp
next
  case (Cons x xs)
  show ?case
  proof (cases "P x")
    case False
    with Cons.prems show ?thesis by simp
  next
    case True
    with Cons.prems(2,3) have k: "k \<in> set (takeWhile P xs @ take 1 (dropWhile P xs))"
      by auto
    from Cons.prems(1) have sorted: "sorted_wrt (\<lambda>a b. rank a < rank b) xs" by simp
    show ?thesis
    proof (cases "k' = x")
      case same: True
      from k until_first_failure_subset[of P xs] have "k \<in> set xs" by blast
      with Cons.prems(1) same show ?thesis by auto
    next
      case other: False
      with True Cons.prems(4) have "k' \<in> set (takeWhile P xs @ take 1 (dropWhile P xs))"
        by auto
      from Cons.IH[OF sorted k Cons.prems(3) this] show ?thesis .
    qed
  qed
qed

text \<open>Each check has come back before the next one is made.\<close>

lemma follows_checkEvents:
  "follows (map Ensure (ensured (checkEvents env cs))) (filter isStepEvent (checkEvents env cs))"
proof (induction cs)
  case Nil
  then show ?case by simp
next
  case (Cons tc cs)
  obtain t c where tc: "tc = (t, c)" by (cases tc)
  show ?case
    by (cases "failure env (Ensure c)") (simp_all add: tc Cons.IH)
qed

text \<open>
  Claim C7. In every run of \<open>logErrorAndExitIfNotSatisfied\<close>: only checks of present
  entries are run; they are run one after the other, each come back before the next is
  made, in the fixed order of the source (the ranks of the checks run increase); the
  check of a present entry is run whenever the checks of the present entries that stand
  before it in this order all pass; and once a check fails no check after it is run.
  In particular, when the entries \<open>cauldronIsActive\<close> and \<open>isCompleteNapDescriptorString\<close>
  are present and the check \<open>cauldronIsActive\<close> fails, the check
  \<open>isCompleteNapDescriptorString\<close> is never run.
\<close>

theorem checks_stop_at_first_failure:
  assumes "logErrorAndExitIfNotSatisfied env c (start s) = (r, w')"
  shows "(\<forall>k \<in> set (ensured (trace w')). requested c k) \<and>
         follows (map Ensure (ensured (trace w'))) (filter isStepEvent (trace w')) \<and>
         sorted_wrt (\<lambda>a b. checkRank a < checkRank b) (ensured (trace w')) \<and>
         (\<forall>k. requested c k \<and>
            (\<forall>k'. requested c k' \<and> checkRank k' < checkRank k \<longrightarrow>
               failure env (Ensure k') = None) \<longrightarrow>
            k \<in> set (ensured (trace w'))) \<and>
         (\<forall>k k'. k \<in> set (ensured (trace w')) \<and> failure env (Ensure k) \<noteq> None \<and>
            checkRank k < checkRank k' \<longrightarrow>
            k' \<notin> set (ensured (trace w'))) \<and>
         (\<forall>extra d extra'.
            cauldronIsActive c = Some extra \<and>
            isCompleteNapDescriptorString c = Some (d, extra') \<and>
            failure env (Ensure (CauldronIsActive extra)) \<noteq> None \<longrightarrow>
            Invoked (Ensure (IsCompleteNapDescriptorString d extra')) \<notin> set (trace w'))"
proof -
  let ?passes = "\<lambda>k. failure env (Ensure k) = None"
  let ?xs = "map snd (presentChecks c)"
  let ?run = "takeWhile ?passes ?xs @ take 1 (dropWhile ?passes ?xs)"
  have tr: "ensured (trace w') = ?run"
    using assms
    by (auto simp: logErrorAndExitIfNotSatisfied_eq start_def ensured_checkEvents
        split: option.splits)
  have xs: "set ?xs = {k. requested c k}"
    using presentChecks_requested[of _ c] by auto
  have sorted: "sorted_wrt (\<lambda>a b. checkRank a < checkRank b) ?xs"
    using presentChecks_ranked[of c] by (simp add: sorted_wrt_map)
  have present: "\<forall>k \<in> set (ensured (trace w')). requested c k"
    using until_first_failure_subset[of ?passes ?xs] xs unfolding tr by blast
  have sequential:
    "follows (map Ensure (ensured (trace w'))) (filter isStepEvent (trace w'))"
    using assms follows_checkEvents[of env "presentChecks c"]
    by (auto simp: logErrorAndExitIfNotSatisfied_eq start_def split: option.splits)
  have ordered: "sorted_wrt (\<lambda>a b. checkRank a < checkRank b) (ensured (trace w'))"
    using sorted unfolding tr until_first_failure_take by (rule sorted_wrt_take)
  have complete: "k \<in> set (ensured (trace w'))"
    if "requested c k"
      and "\<forall>k'. requested c k' \<and> checkRank k' < checkRank k \<longrightarrow> failure env (Ensure k') = None"
    for k
    unfolding tr using sorted
  proof (rule until_first_failure_complete)
    from that(1) xs show "k \<in> set ?xs" by blast
    from that(2) xs show "\<forall>k' \<in> set ?xs. checkRank k' < checkRank k \<longrightarrow> ?passes k'" by blast
  qed
  have aborts: "k' \<notin> set (ensured (trace w'))"
    if "k \<in> set (ensured (trace w'))" "failure env (Ensure k) \<noteq> None"
      "checkRank k < checkRank k'"
    for k k'
  proof
    assume "k' \<in> set (ensured (trace w'))"
    with that(1,2) until_first_failure_last[OF sorted, of k ?passes k']
    have "checkRank k' \<le> checkRank k" unfolding tr by blast
    with that(3) show False by simp
  qed
  have particular: "Invoked (Ensure (IsCompleteNapDescriptorString d extra')) \<notin> set (trace w')"
    if "cauldronIsActive c = Some extra" "failure env (Ensure (CauldronIsActive extra)) \<noteq> None"
    for extra d extra'
  proof -
    from that(1) have "requested c (CauldronIsActive extra)" by simp
    from complete[OF this] have "CauldronIsActive extra \<in> set (ensured (trace w'))"
      by simp
    from aborts[OF this that(2), of "IsCompleteNapDescriptorString d extra'"]
    show ?thesis by simp
  qed
  from present sequential ordered complete aborts particular show ?thesis by blast
qed

lemmas checker_eval =
  logErrorAndExitIfNotSatisfied_eq presentChecks_def whenPresent_def noPreconditions_def
  activeAndComplete_def validAndPublished_def start_def example_defs

text \<open>
  The entries \<open>cauldronIsActive\<close> and \<open>isCompleteNapDescriptorString\<close>. With no active
  Cauldron only the first check is run, and the process exits. With an active Cauldron
  and a descriptor that is not complete both checks are run, in this order.
\<close>

theorem checks_stop_at_first_failure_witness:
  "requested activeAndComplete (CauldronIsActive None) \<and>
   requested activeAndComplete (IsCompleteNapDescriptorString myApp None) \<and>
   failure (failing (Ensure (CauldronIsActive None)) notActive)
     (Ensure (CauldronIsActive None)) = Some notActive \<and>
   ensured (trace (snd (logErrorAndExitIfNotSatisfied
     (failing (Ensure (CauldronIsActive None)) notActive) activeAndComplete
     (start emptyStore)))) = [CauldronIsActive None] \<and>
   Invoked (Ensure (IsCompleteNapDescriptorString myApp None)) \<notin>
     set (trace (snd (logErrorAndExitIfNotSatisfied
       (failing (Ensure (CauldronIsActive None)) notActive) activeAndComplete
       (start emptyStore)))) \<and>
   IsCompleteNapDescriptorString myApp None \<in>
     set (ensured (trace (snd (logErrorAndExitIfNotSatisfied
       (failing (Ensure (IsCompleteNapDescriptorString myApp None)) incomplete)
       activeAndComplete (start emptyStore))))) \<and>
   ensured (trace (snd (logErrorAndExitIfNotSatisfied
     (failing (Ensure (IsCompleteNapDescriptorString myApp None)) incomplete)
     activeAndComplete (start emptyStore)))) =
     [CauldronIsActive None, IsCompleteNapDescriptorString myApp None] \<and>
   fst (logErrorAndExitIfNotSatisfied
     (failing (Ensure (IsCompleteNapDescriptorString myApp None)) incomplete)
     activeAndComplete (start emptyStore)) = Exits 1"
proof -
  let ?env = "failing (Ensure (CauldronIsActive None)) notActive"
  let ?run = "logErrorAndExitIfNotSatisfied ?env activeAndComplete (start emptyStore)"
  let ?env' = "failing (Ensure (IsCompleteNapDescriptorString myApp None)) incomplete"
  let ?run' = "logErrorAndExitIfNotSatisfied ?env' activeAndComplete (start emptyStore)"
  obtain r w' where run: "?run = (r, w')" by (cases ?run)
  obtain r' w'' where run': "?run' = (r', w'')" by (cases ?run')
  have present: "cauldronIsActive activeAndComplete = Some None \<and>
      isCompleteNapDescriptorString activeAndComplete = Some (myApp, None)"
    by (simp add: activeAndComplete_def noPreconditions_def)
  then have requested: "requested activeAndComplete (CauldronIsActive None) \<and>
      requested activeAndComplete (IsCompleteNapDescriptorString myApp None)"
    by simp
  have fails: "failure ?env (Ensure (CauldronIsActive None)) = Some notActive"
    by (simp add: failing_def)
  have first: "ensured (trace (snd ?run)) = [CauldronIsActive None]"
    by (simp add: checker_eval)
  have both: "ensured (trace (snd ?run')) =
      [CauldronIsActive None, IsCompleteNapDescriptorString myApp None]"
    by (simp add: checker_eval)
  have exits: "fst ?run' = Exits 1"
    by (simp add: checker_eval)
  from checks_stop_at_first_failure[OF run] present fails
  have "Invoked (Ensure (IsCompleteNapDescriptorString myApp None)) \<notin> set (trace w')"
    by auto
  moreover
  have "\<forall>k'. requested activeAndComplete k' \<and>
      checkRank k' < checkRank (IsCompleteNapDescriptorString myApp None) \<longrightarrow>
      failure ?env' (Ensure k') = None"
    by (auto simp: failing_def)
  with checks_stop_at_first_failure[OF run'] requested
  have "IsCompleteNapDescriptorString myApp None \<in> set (ensured (trace w''))"
    by blast
  ultimately show ?thesis
    using run run' requested fails first both exits by simp
qed

text \<open>
  Claim C8. In every run of \<open>logErrorAndExitIfNotSatisfied\<close> in which a check of a
  present entry fails, the message of the error is reported (\<open>spinner.fail\<close>) and the
  process ends with exit code 1 (\<open>process.exit(1)\<close>): the run ends with \<open>Exits 1\<close>, not
  with an error thrown to the caller.
\<close>

theorem failed_check_exits_process:
  assumes "logErrorAndExitIfNotSatisfied env c (start s) = (r, w')"
    and "\<exists>k \<in> snd ` set (presentChecks c). failure env (Ensure k) \<noteq> None"
  shows "r = Exits 1 \<and> (\<forall>e. r \<noteq> Throws e) \<and>
         (\<exists>k e pre. k \<in> snd ` set (presentChecks c) \<and> failure env (Ensure k) = Some e \<and>
            trace w' = pre @ [Rejected (Ensure k) e, SpinnerFail (message e), ProcessExit 1])"
proof -
  from assms(2) obtain e where ff: "firstFailure env (presentChecks c) = Some e"
    using firstFailure_None[of env "presentChecks c"]
    by (cases "firstFailure env (presentChecks c)") auto
  from firstFailure_Some[OF ff] obtain k pre where
    k: "k \<in> snd ` set (presentChecks c)" "failure env (Ensure k) = Some e"
       "checkEvents env (presentChecks c) = pre @ [Rejected (Ensure k) e]" by blast
  from assms(1) ff k(3) have "r = Exits 1"
    and "trace w' = (SpinnerStart ''Performing initial checks'' # pre) @
           [Rejected (Ensure k) e, SpinnerFail (message e), ProcessExit 1]"
    by (auto simp: logErrorAndExitIfNotSatisfied_eq start_def)
  with k show ?thesis by blast
qed

text \<open>
  The entries \<open>isValidContainerVersion\<close> and \<open>publishedToNpm\<close>, a version that is not
  valid: the failure is reported and the process exits with code 1.
\<close>

theorem failed_check_exits_process_witness:
  "IsValidContainerVersion ''banana'' None \<in> snd ` set (presentChecks validAndPublished) \<and>
   logErrorAndExitIfNotSatisfied
     (failing (Ensure (IsValidContainerVersion ''banana'' None)) invalidVersion)
     validAndPublished (start emptyStore) =
   (Exits 1,
    \<lparr>trace =
       [SpinnerStart ''Performing initial checks'',
        SpinnerText ''Ensuring that container version is valid'',
        Invoked (Ensure (IsValidContainerVersion ''banana'' None)),
        Rejected (Ensure (IsValidContainerVersion ''banana'' None)) invalidVersion,
        SpinnerFail ''Container version is not valid'',
        ProcessExit 1],
     cauldronStore = emptyStore, unawaited = []\<rparr>)"
proof -
  let ?env = "failing (Ensure (IsValidContainerVersion ''banana'' None)) invalidVersion"
  let ?run = "logErrorAndExitIfNotSatisfied ?env validAndPublished (start emptyStore)"
  obtain r w' where run: "?run = (r, w')" by (cases ?run)
  have present: "IsValidContainerVersion ''banana'' None \<in>
      snd ` set (presentChecks validAndPublished)"
    by (simp add: presentChecks_def whenPresent_def validAndPublished_def noPreconditions_def)
  have fails: "failure ?env (Ensure (IsValidContainerVersion ''banana'' None)) \<noteq> None"
    by (simp add: failing_def)
  from failed_check_exits_process[OF run] present fails have "r = Exits 1" by blast
  moreover have "snd ?run =
    \<lparr>trace =
       [SpinnerStart ''Performing initial checks'',
        SpinnerText ''Ensuring that container version is valid'',
        Invoked (Ensure (IsValidContainerVersion ''banana'' None)),
        Rejected (Ensure (IsValidContainerVersion ''banana'' None)) invalidVersion,
        SpinnerFail ''Container version is not valid'',
        ProcessExit 1],
     cauldronStore = emptyStore, unawaited = []\<rparr>"
    by (simp add: checker_eval)
  ultimately show ?thesis using run present by simp
qed

section \<open>performContainerStateUpdateInCauldron in closed form\<close>

lemma perform_blocks:
  "performContainerStateUpdateInCauldron env f d opts =
     andThen (cauldronContainerVersion env d opts) (\<lambda>v.
       tryCatch (tryBlock env f d v) (\<lambda>e. catchBlock e))"
  unfolding performContainerStateUpdateInCauldron_def tryBlock_def catchBlock_def ..

lemma await_step:
  "c \<noteq> StateUpdateFunc \<Longrightarrow>
   andThen (await env c) (\<lambda>_. k) w =
     (case act env f c (cauldronStore w) of
        (Some e, s') \<Rightarrow>
          (Throws e, w\<lparr>trace := trace w @ [Invoked c, Rejected c e], cauldronStore := s'\<rparr>)
      | (None, s') \<Rightarrow>
          k (w\<lparr>cauldronStore := s', trace := trace w @ [Invoked c, Resolved c]\<rparr>))"
  by (simp add: andThen_def await_def awaitWith_def act_def emit_def Let_def
      split: prod.splits option.splits)

lemma spin_step:
  "c \<noteq> StateUpdateFunc \<Longrightarrow>
   andThen (spin msg env c) (\<lambda>_. k) w =
     (case act env f c (cauldronStore w) of
        (Some e, s') \<Rightarrow>
          (Throws e,
           w\<lparr>trace := trace w @ [Invoked c, Spin msg, Rejected c e], cauldronStore := s'\<rparr>)
      | (None, s') \<Rightarrow>
          k (w\<lparr>cauldronStore := s', trace := trace w @ [Invoked c, Spin msg, Resolved c]\<rparr>))"
  by (simp add: andThen_def spin_def act_def emit_def Let_def
      split: prod.splits option.splits)

lemma callback_step:
  "andThen (awaitWith StateUpdateFunc (onDocument f)) (\<lambda>_. k) w =
     (case act env f StateUpdateFunc (cauldronStore w) of
        (Some e, s') \<Rightarrow>
          (Throws e,
           w\<lparr>trace := trace w @ [Invoked StateUpdateFunc, Rejected StateUpdateFunc e],
             cauldronStore := s'\<rparr>)
      | (None, s') \<Rightarrow>
          k (w\<lparr>cauldronStore := s',
               trace := trace w @ [Invoked StateUpdateFunc, Resolved StateUpdateFunc]\<rparr>))"
  by (simp add: andThen_def awaitWith_def act_def emit_def Let_def
      split: prod.splits option.splits)

lemma tryBlock_eq:
  "tryBlock env f d v w =
     ((case stepsError env f (steps d v) (cauldronStore w) of
         None \<Rightarrow> Returns ()
       | Some e \<Rightarrow> Throws e),
      w\<lparr>trace := trace w @ stepsEvents env f (steps d v) (cauldronStore w) @
           (case stepsError env f (steps d v) (cauldronStore w) of
              None \<Rightarrow>
                [Log DebugLevel (''Published new container version '' @ showVersion v @
                   '' for '' @ d)]
            | Some e \<Rightarrow> []),
         cauldronStore := stepsStore env f (steps d v) (cauldronStore w)\<rparr>)"
  unfolding tryBlock_def steps_def
  apply (subst await_step[where f = f], simp)
  apply (subst callback_step[where env = env])
  apply (subst spin_step[where f = f], simp)
  apply (subst await_step[where f = f], simp)
  apply (simp add: spin_def andThen_def say_def emit_def Let_def spinEvent_def
      act_def[of env f CommitTransaction] split: prod.splits option.splits)
  done

lemma attempt_eq:
  "tryCatch (tryBlock env f d v) (\<lambda>e. catchBlock e) w =
     (case stepsError env f (steps d v) (cauldronStore w) of
        None \<Rightarrow>
          (Returns (),
           w\<lparr>cauldronStore := stepsStore env f (steps d v) (cauldronStore w),
             trace := trace w @ stepsEvents env f (steps d v) (cauldronStore w) @
               [Log DebugLevel (''Published new container version '' @ showVersion v @
                  '' for '' @ d)]\<rparr>)
      | Some e \<Rightarrow>
          (Throws e,
           w\<lparr>cauldronStore := stepsStore env f (steps d v) (cauldronStore w),
             trace := trace w @ stepsEvents env f (steps d v) (cauldronStore w) @
               [Log ErrorLevel
                  (''[performContainerStateUpdateInCauldron] An error happened '' @
                   errorToString e),
                Invoked DiscardTransaction],
             unawaited := unawaited w @ [DiscardTransaction]\<rparr>))"
  by (simp add: tryCatch_def tryBlock_eq catchBlock_def andThen_def say_def invoke_def
      throw_def emit_def split: option.splits)

lemma cauldronContainerVersion_eq:
  "cauldronContainerVersion env d opts w =
     (if truthy (containerVersion opts) then (Returns (containerVersion opts), w)
      else case failure env (GetTopLevelContainerVersion d) of
             Some e \<Rightarrow>
               (Throws e,
                w\<lparr>trace := trace w @ [Invoked (GetTopLevelContainerVersion d),
                     Rejected (GetTopLevelContainerVersion d) e]\<rparr>)
           | None \<Rightarrow>
               (Returns (selectedVersion d opts (cauldronStore w)),
                w\<lparr>trace := trace w @ [Invoked (GetTopLevelContainerVersion d),
                     Resolved (GetTopLevelContainerVersion d)]\<rparr>))"
  by (simp add: cauldronContainerVersion_def awaitGetTopLevelContainerVersion_def
      selectedVersion_def andThen_def await_def awaitWith_def perform_def ret_def emit_def
      Let_def split: option.splits)

text \<open>
  The three ways an update from a fresh trace ends: the read of the version fails, all
  steps succeed, or a step fails.
\<close>

lemma run_cases:
  assumes "performContainerStateUpdateInCauldron env f d opts (start s) = (r, w')"
  obtains
    (readFailed) e where
      "\<not> truthy (containerVersion opts)"
      "failure env (GetTopLevelContainerVersion d) = Some e"
      "r = Throws e"
      "w' = \<lparr>trace = [Invoked (GetTopLevelContainerVersion d),
                        Rejected (GetTopLevelContainerVersion d) e],
             cauldronStore = s, unawaited = []\<rparr>"
  | (finished)
      "stepsError env f (steps d (selectedVersion d opts s)) s = None"
      "r = Returns ()"
      "w' = \<lparr>trace = selectionEvents d opts @
               stepsEvents env f (steps d (selectedVersion d opts s)) s @
               [Log DebugLevel (''Published new container version '' @
                  showVersion (selectedVersion d opts s) @ '' for '' @ d)],
             cauldronStore = stepsStore env f (steps d (selectedVersion d opts s)) s,
             unawaited = []\<rparr>"
  | (failed) e where
      "stepsError env f (steps d (selectedVersion d opts s)) s = Some e"
      "r = Throws e"
      "w' = \<lparr>trace = selectionEvents d opts @
               stepsEvents env f (steps d (selectedVersion d opts s)) s @
               [Log ErrorLevel
                  (''[performContainerStateUpdateInCauldron] An error happened '' @
                   errorToString e),
                Invoked DiscardTransaction],
             cauldronStore = stepsStore env f (steps d (selectedVersion d opts s)) s,
             unawaited = [DiscardTransaction]\<rparr>"
proof (cases "truthy (containerVersion opts)")
  case True
  then have v: "selectedVersion d opts s = containerVersion opts"
    by (simp add: selectedVersion_def)
  show ?thesis
  proof (cases "stepsError env f (steps d (containerVersion opts)) s")
    case None
    with assms True v show ?thesis
      by (intro finished)
         (auto simp: perform_blocks andThen_def cauldronContainerVersion_eq attempt_eq
            start_def selectionEvents_def)
  next
    case (Some e)
    with assms True v show ?thesis
      by (intro failed[of e])
         (auto simp: perform_blocks andThen_def cauldronContainerVersion_eq attempt_eq
            start_def selectionEvents_def)
  qed
next
  case False
  show ?thesis
  proof (cases "failure env (GetTopLevelContainerVersion d)")
    case (Some e)
    with assms False show ?thesis
      by (intro readFailed[of e])
         (auto simp: perform_blocks andThen_def cauldronContainerVersion_eq start_def)
  next
    case None
    show ?thesis
    proof (cases "stepsError env f (steps d (selectedVersion d opts s)) s")
      case ok: None
      with assms False None show ?thesis
        by (intro finished)
           (auto simp: perform_blocks andThen_def cauldronContainerVersion_eq attempt_eq
              start_def selectionEvents_def)
    next
      case (Some e)
      with assms False None show ?thesis
        by (intro failed[of e])
           (auto simp: perform_blocks andThen_def cauldronContainerVersion_eq attempt_eq
              start_def selectionEvents_def)
    qed
  qed
qed

section \<open>Lemmas on the steps of an update\<close>

lemma steps_calls [simp]:
  "map snd (steps d v) =
     [BeginTransaction, StateUpdateFunc, RunCauldronContainerGen d v True None,
      UpdateContainerVersion d v, CommitTransaction]"
  by (simp add: steps_def)

lemma discard_not_step [simp]: "DiscardTransaction \<notin> snd ` set (steps d v)"
  by (simp add: steps_def)

lemma steps_Cons:
  "steps d v =
     (None, BeginTransaction) # (None, StateUpdateFunc) #
     [(Some (''Generating new container version '' @ showVersion v @ '' for '' @ d),
       RunCauldronContainerGen d v True None),
      (None, UpdateContainerVersion d v),
      (Some ''Updating Cauldron'', CommitTransaction)]"
  by (simp add: steps_def)

lemma selectionEvents_no_rejected [simp]: "Rejected c e \<notin> set (selectionEvents d opts)"
  by (simp add: selectionEvents_def)

lemma follows_stepsEvents:
  "DiscardTransaction \<notin> snd ` set cs \<Longrightarrow>
   follows (map snd cs) (filter isStepEvent (stepsEvents env f cs s))"
proof (induction cs arbitrary: s)
  case Nil
  then show ?case by simp
next
  case (Cons mc cs)
  obtain m c where mc: "mc = (m, c)" by (cases mc)
  obtain r s' where a: "act env f c s = (r, s')" by (cases "act env f c s")
  from Cons.prems have c: "c \<noteq> DiscardTransaction"
    and rest: "DiscardTransaction \<notin> snd ` set cs"
    by (auto simp: mc)
  show ?case
  proof (cases r)
    case None
    with a c Cons.IH[OF rest, of s'] show ?thesis
      by (simp add: mc)
  next
    case (Some e)
    with a c show ?thesis
      by (simp add: mc)
  qed
qed

lemma resolved_stepsEvents:
  "stepsError env f cs s = None \<Longrightarrow> resolved (stepsEvents env f cs s) = map snd cs"
proof (induction cs arbitrary: s)
  case Nil
  then show ?case by simp
next
  case (Cons mc cs)
  obtain m c where mc: "mc = (m, c)" by (cases mc)
  obtain r s' where a: "act env f c s = (r, s')" by (cases "act env f c s")
  from Cons.prems a have r: "r = None" and e: "stepsError env f cs s' = None"
    by (auto simp: mc split: option.splits)
  show ?case using Cons.IH[OF e] a r by (simp add: mc)
qed

lemma rejected_stepsEvents:
  "Rejected c e \<in> set (stepsEvents env f cs s) \<Longrightarrow>
   stepsError env f cs s = Some e \<and> c \<in> snd ` set cs \<and>
   (\<exists>pre. stepsEvents env f cs s = pre @ [Rejected c e])"
proof (induction cs arbitrary: s)
  case Nil
  then show ?case by simp
next
  case (Cons mc cs)
  obtain m c0 where mc: "mc = (m, c0)" by (cases mc)
  obtain r s' where a: "act env f c0 s = (r, s')" by (cases "act env f c0 s")
  show ?case
  proof (cases r)
    case None
    with Cons.prems a have "Rejected c e \<in> set (stepsEvents env f cs s')"
      by (auto simp: mc spinEvent_def split: option.splits)
    from Cons.IH[OF this] None a show ?thesis
      by (auto simp: mc)
  next
    case (Some e0)
    with Cons.prems a have "c = c0 \<and> e = e0"
      by (auto simp: mc spinEvent_def split: option.splits)
    with Some a show ?thesis
      by (auto simp: mc intro: exI[of _ "Invoked c0 # spinEvent m"])
  qed
qed

lemma invoked_stepsEvents:
  "Invoked c \<in> set (stepsEvents env f cs s) \<Longrightarrow> c \<in> snd ` set cs"
proof (induction cs arbitrary: s)
  case Nil
  then show ?case by simp
next
  case (Cons mc cs)
  obtain m c0 where mc: "mc = (m, c0)" by (cases mc)
  obtain r s' where a: "act env f c0 s = (r, s')" by (cases "act env f c0 s")
  from Cons.prems a have "c = c0 \<or> Invoked c \<in> set (stepsEvents env f cs s')"
    by (auto simp: mc spinEvent_def split: option.splits)
  with Cons.IH show ?case by (auto simp: mc)
qed

lemma rejected_first:
  assumes "Rejected c1 e \<in> set (stepsEvents env f ((m1, c1) # rest) s)"
    and "c1 \<notin> snd ` set rest"
  shows "\<exists>s1. act env f c1 s = (Some e, s1) \<and>
           stepsEvents env f ((m1, c1) # rest) s = Invoked c1 # spinEvent m1 @ [Rejected c1 e] \<and>
           stepsStore env f ((m1, c1) # rest) s = s1"
proof -
  obtain r1 s1 where a1: "act env f c1 s = (r1, s1)" by (cases "act env f c1 s")
  show ?thesis
  proof (cases r1)
    case None
    with assms(1) a1 have "Rejected c1 e \<in> set (stepsEvents env f rest s1)"
      by (auto simp: spinEvent_def split: option.splits)
    from rejected_stepsEvents[OF this] assms(2) show ?thesis by simp
  next
    case (Some e1)
    with assms(1) a1 have "e1 = e"
      by (auto simp: spinEvent_def split: option.splits)
    with Some a1 show ?thesis by simp
  qed
qed

lemma rejected_second:
  assumes "Rejected c2 e \<in> set (stepsEvents env f ((m1, c1) # (m2, c2) # rest) s)"
    and "c1 \<noteq> c2" and "c2 \<notin> snd ` set rest"
  shows "\<exists>s1 s2. act env f c1 s = (None, s1) \<and> act env f c2 s1 = (Some e, s2) \<and>
           stepsEvents env f ((m1, c1) # (m2, c2) # rest) s =
             Invoked c1 # spinEvent m1 @ Resolved c1 # Invoked c2 # spinEvent m2 @
             [Rejected c2 e] \<and>
           stepsStore env f ((m1, c1) # (m2, c2) # rest) s = s2"
proof -
  obtain r1 s1 where a1: "act env f c1 s = (r1, s1)" by (cases "act env f c1 s")
  show ?thesis
  proof (cases r1)
    case None
    with assms(1) a1 have "Rejected c2 e \<in> set (stepsEvents env f ((m2, c2) # rest) s1)"
      by (auto simp: spinEvent_def split: option.splits)
    from rejected_first[OF this assms(3)] None a1 show ?thesis by auto
  next
    case (Some e1)
    with assms(1,2) a1 show ?thesis
      by (auto simp: spinEvent_def split: option.splits)
  qed
qed

text \<open>
  When the mutation fails, the transaction was opened and nothing came after the
  mutation; the store differs from the one before the call in the open transaction only.
\<close>

lemma rejected_mutation:
  assumes "Rejected StateUpdateFunc e \<in> set (stepsEvents env f (steps d v) s)"
  shows "stepsEvents env f (steps d v) s =
           [Invoked BeginTransaction, Resolved BeginTransaction,
            Invoked StateUpdateFunc, Rejected StateUpdateFunc e] \<and>
         (\<exists>doc. stepsStore env f (steps d v) s = s\<lparr>transaction := Some doc\<rparr>)"
proof -
  from assms have "\<exists>s1 s2. act env f BeginTransaction s = (None, s1) \<and>
      act env f StateUpdateFunc s1 = (Some e, s2) \<and>
      stepsEvents env f (steps d v) s =
        Invoked BeginTransaction # spinEvent None @ Resolved BeginTransaction #
        Invoked StateUpdateFunc # spinEvent None @ [Rejected StateUpdateFunc e] \<and>
      stepsStore env f (steps d v) s = s2"
    unfolding steps_Cons by (intro rejected_second) simp_all
  then obtain s1 s2 where
    a1: "act env f BeginTransaction s = (None, s1)" and
    a2: "act env f StateUpdateFunc s1 = (Some e, s2)" and
    ev: "stepsEvents env f (steps d v) s =
           [Invoked BeginTransaction, Resolved BeginTransaction,
            Invoked StateUpdateFunc, Rejected StateUpdateFunc e]" and
    st: "stepsStore env f (steps d v) s = s2"
    by (auto simp: spinEvent_def)
  from a1 have "s1 = s\<lparr>transaction := Some (current s)\<rparr>"
    by (simp add: act_def perform_def split: option.splits)
  with a2 have "\<exists>doc. s2 = s\<lparr>transaction := Some doc\<rparr>"
    by (auto simp: act_def onDocument_def store_write_def split: prod.splits)
  with ev st show ?thesis by simp
qed

lemma rejected_begin:
  assumes "Rejected BeginTransaction e \<in> set (stepsEvents env f (steps d v) s)"
  shows "stepsEvents env f (steps d v) s =
           [Invoked BeginTransaction, Rejected BeginTransaction e]"
proof -
  from assms have "\<exists>s1. act env f BeginTransaction s = (Some e, s1) \<and>
      stepsEvents env f (steps d v) s =
        Invoked BeginTransaction # spinEvent None @ [Rejected BeginTransaction e] \<and>
      stepsStore env f (steps d v) s = s1"
    unfolding steps_Cons by (intro rejected_first) simp_all
  then show ?thesis by (auto simp: spinEvent_def)
qed

text \<open>
  Neither the write of the version pointer nor the commit is invoked before the
  generation of the container has come back.
\<close>

lemma precedes_steps:
  assumes "b = Invoked (UpdateContainerVersion d v) \<or> b = Invoked CommitTransaction"
    and "b \<notin> set evs"
  shows "precedes (Resolved (RunCauldronContainerGen d v True None)) b
           (stepsEvents env f (steps d v) s @ evs)"
proof -
  let ?gen = "RunCauldronContainerGen d v True None"
  let ?m = "Some (''Generating new container version '' @ showVersion v @ '' for '' @ d)"
  let ?tail =
    "[(None, UpdateContainerVersion d v), (Some ''Updating Cauldron'', CommitTransaction)]"
  have gen: "precedes (Resolved ?gen) b (stepsEvents env f ((?m, ?gen) # ?tail) s' @ evs)"
    for s'
  proof (cases "act env f ?gen s'")
    case (Pair r s'')
    show ?thesis
    proof (cases r)
      case None
      with Pair assms(1) show ?thesis by (auto simp: spinEvent_def)
    next
      case (Some e)
      with Pair assms show ?thesis by (auto simp: spinEvent_def intro: precedes_notin)
    qed
  qed
  have mut: "precedes (Resolved ?gen) b
      (stepsEvents env f ((None, StateUpdateFunc) # (?m, ?gen) # ?tail) s' @ evs)" for s'
  proof (cases "act env f StateUpdateFunc s'")
    case (Pair r s'')
    show ?thesis
    proof (cases r)
      case None
      with Pair assms(1) gen[of s''] show ?thesis by (auto simp: spinEvent_def)
    next
      case (Some e)
      with Pair assms show ?thesis by (auto simp: spinEvent_def intro: precedes_notin)
    qed
  qed
  show ?thesis
  proof (cases "act env f BeginTransaction s")
    case (Pair r s')
    show ?thesis
    proof (cases r)
      case None
      with Pair assms(1) mut[of s'] show ?thesis
        unfolding steps_Cons by (auto simp: spinEvent_def)
    next
      case (Some e)
      with Pair assms show ?thesis
        unfolding steps_Cons by (auto simp: spinEvent_def intro: precedes_notin)
    qed
  qed
qed

text \<open>
  The calls of an update: those of the version selection, the steps with the version
  selected, and the discard.
\<close>

lemma calls_of_update:
  assumes "performContainerStateUpdateInCauldron env f d opts (start s) = (r, w')"
    and "Invoked c \<in> set (trace w')"
  shows "c \<in> set (plan d opts s) \<or> c = DiscardTransaction"
  using assms(1)
proof (cases rule: run_cases)
  case (readFailed e)
  with assms(2) show ?thesis by (auto simp: plan_def selectionCalls_def)
next
  case finished
  with assms(2) have
    "Invoked c \<in> set (selectionEvents d opts) \<or>
     Invoked c \<in> set (stepsEvents env f (steps d (selectedVersion d opts s)) s)"
    by auto
  with invoked_stepsEvents[of c env f "steps d (selectedVersion d opts s)" s]
  show ?thesis
    by (auto simp: plan_def selectionCalls_def selectionEvents_def steps_def
        split: if_splits)
next
  case (failed e)
  with assms(2) have
    "Invoked c \<in> set (selectionEvents d opts) \<or>
     Invoked c \<in> set (stepsEvents env f (steps d (selectedVersion d opts s)) s) \<or>
     c = DiscardTransaction"
    by auto
  with invoked_stepsEvents[of c env f "steps d (selectedVersion d opts s)" s]
  show ?thesis
    by (auto simp: plan_def selectionCalls_def selectionEvents_def steps_def
        split: if_splits)
qed

section \<open>performContainerStateUpdateInCauldron: the claims\<close>

text \<open>
  What every failed update does. When one of the steps transaction open, mutation,
  container generation, write of the version pointer or commit fails with an error:
  this error is logged, then \<open>discardTransaction\<close> is invoked, and then this very error
  is thrown to the caller (these are the last three events of the run). The discard is
  the one call of the update nobody waits for.
\<close>

lemma failed_step_logged_and_rethrown:
  assumes "performContainerStateUpdateInCauldron env f d opts (start s) = (r, w')"
    and "isUpdateStep c" and "Rejected c e \<in> set (trace w')"
  shows "r = Throws e \<and>
         (\<exists>pre. trace w' = pre @
            [Rejected c e,
             Log ErrorLevel (''[performContainerStateUpdateInCauldron] An error happened '' @
               errorToString e),
             Invoked DiscardTransaction]) \<and>
         unawaited w' = [DiscardTransaction]"
  using assms(1)
proof (cases rule: run_cases)
  case (readFailed e')
  with assms(2,3) show ?thesis by auto
next
  case finished
  with assms(3) have
    "Rejected c e \<in> set (stepsEvents env f (steps d (selectedVersion d opts s)) s)"
    by simp
  from rejected_stepsEvents[OF this] finished(1) show ?thesis by simp
next
  case (failed e')
  with assms(3) have
    "Rejected c e \<in> set (stepsEvents env f (steps d (selectedVersion d opts s)) s)"
    by simp
  from rejected_stepsEvents[OF this] failed(1) obtain pre where
    "e' = e"
    "stepsEvents env f (steps d (selectedVersion d opts s)) s = pre @ [Rejected c e]"
    by auto
  with failed show ?thesis by simp
qed

text \<open>
  Claim C1. The claim has the transaction closed before control returns to the caller.
  In the \<open>catch\<close> block \<open>cauldron.discardTransaction()\<close> is called without \<open>await\<close>
  (line 346), unlike every other call of the function to the state store (lines 314
  to 341), and the error is thrown right after the call. At the failing input (the
  store records version 2.1.0, the mutation does nothing, the generation of container
  2.1.1 fails) the error of the generation is logged, \<open>discardTransaction\<close> is invoked
  and the error is thrown to the caller, as the claim says; but the discard is still
  pending and the transaction the update has opened is still open when the caller has
  the error. The transaction is closed only when the pending discard has completed.
\<close>

theorem failed_generation_rethrown_before_discard_completes:
  "fst (performContainerStateUpdateInCauldron (failing generation buildFailed) noMutation myApp
          defaultVersion (start (storeRecording myApp ''2.1.0''))) = Throws buildFailed \<and>
   trace (snd (performContainerStateUpdateInCauldron (failing generation buildFailed) noMutation
          myApp defaultVersion (start (storeRecording myApp ''2.1.0'')))) =
     [Invoked (GetTopLevelContainerVersion myApp), Resolved (GetTopLevelContainerVersion myApp),
      Invoked BeginTransaction, Resolved BeginTransaction,
      Invoked StateUpdateFunc, Resolved StateUpdateFunc,
      Invoked generation,
      Spin ''Generating new container version 2.1.1 for MyApp:android:1.0.0'',
      Rejected generation buildFailed,
      Log ErrorLevel
        ''[performContainerStateUpdateInCauldron] An error happened Error: Container generation failed'',
      Invoked DiscardTransaction] \<and>
   unawaited (snd (performContainerStateUpdateInCauldron (failing generation buildFailed)
          noMutation myApp defaultVersion (start (storeRecording myApp ''2.1.0'')))) =
     [DiscardTransaction] \<and>
   \<not> transactionClosed (snd (performContainerStateUpdateInCauldron
          (failing generation buildFailed) noMutation myApp defaultVersion
          (start (storeRecording myApp ''2.1.0'')))) \<and>
   transactionClosed (settle (failing generation buildFailed)
     (snd (performContainerStateUpdateInCauldron (failing generation buildFailed) noMutation
        myApp defaultVersion (start (storeRecording myApp ''2.1.0'')))))"
  by (simp add: update_eval settle_def transactionClosed_def)

text \<open>
  Claim C2. In every run of \<open>performContainerStateUpdateInCauldron\<close> the steps are run
  strictly in the order version selection, transaction open, mutation, container
  generation with publish enabled, write of the version pointer, commit, each one
  awaited before the next is invoked (the run may stop at a step that fails); a run
  that returns has run them all. In particular neither the write of the version pointer
  nor the commit is invoked before the generation has come back.
\<close>

theorem update_steps_in_order:
  assumes "performContainerStateUpdateInCauldron env f d opts (start s) = (r, w')"
  shows "follows (plan d opts s) (filter isStepEvent (trace w')) \<and>
         (r = Returns () \<longrightarrow> resolved (trace w') = plan d opts s) \<and>
         precedes (Resolved (RunCauldronContainerGen d (selectedVersion d opts s) True None))
           (Invoked (UpdateContainerVersion d (selectedVersion d opts s))) (trace w') \<and>
         precedes (Resolved (RunCauldronContainerGen d (selectedVersion d opts s) True None))
           (Invoked CommitTransaction) (trace w')"
  using assms
proof (cases rule: run_cases)
  case (readFailed e)
  then show ?thesis by (simp add: plan_def selectionCalls_def)
next
  case finished
  from follows_stepsEvents[OF discard_not_step, of d "selectedVersion d opts s" env f s]
       resolved_stepsEvents[OF finished(1)]
  show ?thesis
    by (simp add: finished plan_def selectionCalls_def selectionEvents_def precedes_steps)
next
  case (failed e)
  from follows_stepsEvents[OF discard_not_step, of d "selectedVersion d opts s" env f s]
  show ?thesis
    by (simp add: failed plan_def selectionCalls_def selectionEvents_def precedes_steps)
qed

text \<open>
  The store records version 2.1.0 and every call succeeds: the six calls come back in
  the order of the plan, the generation of 2.1.1 before the write of the pointer and
  before the commit.
\<close>

theorem update_steps_in_order_witness:
  "fst (performContainerStateUpdateInCauldron quietEnv noMutation myApp defaultVersion
          (start (storeRecording myApp ''2.1.0''))) = Returns () \<and>
   resolved (trace (snd (performContainerStateUpdateInCauldron quietEnv noMutation myApp
          defaultVersion (start (storeRecording myApp ''2.1.0''))))) =
     [GetTopLevelContainerVersion myApp, BeginTransaction, StateUpdateFunc, generation,
      UpdateContainerVersion myApp (Some ''2.1.1''), CommitTransaction] \<and>
   follows
     [GetTopLevelContainerVersion myApp, BeginTransaction, StateUpdateFunc, generation,
      UpdateContainerVersion myApp (Some ''2.1.1''), CommitTransaction]
     (filter isStepEvent (trace (snd (performContainerStateUpdateInCauldron quietEnv noMutation
        myApp defaultVersion (start (storeRecording myApp ''2.1.0'')))))) \<and>
   precedes (Resolved generation) (Invoked (UpdateContainerVersion myApp (Some ''2.1.1'')))
     (trace (snd (performContainerStateUpdateInCauldron quietEnv noMutation
        myApp defaultVersion (start (storeRecording myApp ''2.1.0''))))) \<and>
   precedes (Resolved generation) (Invoked CommitTransaction)
     (trace (snd (performContainerStateUpdateInCauldron quietEnv noMutation
        myApp defaultVersion (start (storeRecording myApp ''2.1.0'')))))"
proof -
  let ?run = "performContainerStateUpdateInCauldron quietEnv noMutation myApp defaultVersion
     (start (storeRecording myApp ''2.1.0''))"
  have run: "?run = (fst ?run, snd ?run)" by simp
  have ok: "fst ?run = Returns ()" by (simp add: update_eval)
  have v: "selectedVersion myApp defaultVersion (storeRecording myApp ''2.1.0'') =
      Some ''2.1.1''"
    by (simp add: selectedVersion_def prog_defs example_defs semver_eval)
  have p: "plan myApp defaultVersion (storeRecording myApp ''2.1.0'') =
     [GetTopLevelContainerVersion myApp, BeginTransaction, StateUpdateFunc, generation,
      UpdateContainerVersion myApp (Some ''2.1.1''), CommitTransaction]"
    unfolding plan_def v by (simp add: selectionCalls_def truthy_def defaultVersion_def
        generation_def)
  from update_steps_in_order[OF run] ok show ?thesis
    unfolding p v by (simp add: generation_def)
qed

text \<open>
  Claim C3. In every run of \<open>performContainerStateUpdateInCauldron\<close> without an explicit
  \<open>containerVersion\<close> (the option is absent, or empty) in which the store is read: if
  the store records no top-level container version for the descriptor, the version
  selected (the variable \<open>cauldronContainerVersion\<close>) is exactly \<open>1.0.0\<close>; if it records
  a version \<open>MAJOR.MINOR.PATCH\<close>, the version selected is \<open>MAJOR.MINOR.(PATCH + 1)\<close>, as in
  \<open>2.1.0 \<rightarrow> 2.1.1\<close>. For every valid semantic version \<open>V\<close> recorded, the version
  selected is the patch increment of \<open>V\<close> as \<open>semver\<close> defines it: the major and the
  minor component of \<open>V\<close>, and its patch component plus one, or, when \<open>V\<close> is a
  prerelease, the patch component itself (the release this prerelease leads to). The
  update generates the container and writes the version pointer with no other version
  than the one selected.
\<close>

theorem default_container_version:
  assumes "\<not> truthy (containerVersion opts)"
    and "failure env (GetTopLevelContainerVersion d) = None"
  shows "\<exists>v. fst (cauldronContainerVersion env d opts (start s)) = Returns v \<and>
           (containerVersions (current s) d = None \<longrightarrow> v = Some ''1.0.0'') \<and>
           (\<forall>a b c. containerVersions (current s) d = Some (versionString a b c) \<and>
              a \<le> maxSafeInteger \<and> b \<le> maxSafeInteger \<and> c \<le> maxSafeInteger \<longrightarrow>
              v = Some (versionString a b (c + 1))) \<and>
           (\<forall>V sv. containerVersions (current s) d = Some V \<and> parseSemVer V = Some sv \<longrightarrow>
              v = Some (versionString (major sv) (minor sv)
                          (if prerelease sv = [] then patch sv + 1 else patch sv))) \<and>
           (\<forall>f r w' d' v' p n.
              performContainerStateUpdateInCauldron env f d opts (start s) = (r, w') \<and>
              (Invoked (RunCauldronContainerGen d' v' p n) \<in> set (trace w') \<or>
               Invoked (UpdateContainerVersion d' v') \<in> set (trace w')) \<longrightarrow>
              v' = v)"
proof -
  let ?v = "selectedVersion d opts s"
  have sel: "fst (cauldronContainerVersion env d opts (start s)) = Returns ?v"
    using assms by (simp add: cauldronContainerVersion_eq start_def)
  have none: "containerVersions (current s) d = None \<longrightarrow> ?v = Some ''1.0.0''"
    using assms(1) by (simp add: selectedVersion_def)
  have plain: "\<forall>a b c. containerVersions (current s) d = Some (versionString a b c) \<and>
      a \<le> maxSafeInteger \<and> b \<le> maxSafeInteger \<and> c \<le> maxSafeInteger \<longrightarrow>
      ?v = Some (versionString a b (c + 1))"
    using assms(1)
    by (simp add: selectedVersion_def versionString_nonempty semverInc_plain)
  have parsed: "\<forall>V sv. containerVersions (current s) d = Some V \<and> parseSemVer V = Some sv \<longrightarrow>
      ?v = Some (versionString (major sv) (minor sv)
                   (if prerelease sv = [] then patch sv + 1 else patch sv))"
  proof (intro allI impI)
    fix V sv
    assume a: "containerVersions (current s) d = Some V \<and> parseSemVer V = Some sv"
    then have "V \<noteq> []"
      by (auto simp: parseSemVer_def trim_def stripV_def splitAtFirst_def parseCore_def
          parseMainNumber_def parseNumericIdentifier_def)
    with a assms(1) show "?v = Some (versionString (major sv) (minor sv)
        (if prerelease sv = [] then patch sv + 1 else patch sv))"
      using semverInc_parsed[of V sv] by (simp add: selectedVersion_def)
  qed
  have used: "\<forall>f r w' d' v' p n.
      performContainerStateUpdateInCauldron env f d opts (start s) = (r, w') \<and>
      (Invoked (RunCauldronContainerGen d' v' p n) \<in> set (trace w') \<or>
       Invoked (UpdateContainerVersion d' v') \<in> set (trace w')) \<longrightarrow>
      v' = ?v"
  proof (intro allI impI)
    fix f r w' d' v' p n
    assume a: "performContainerStateUpdateInCauldron env f d opts (start s) = (r, w') \<and>
      (Invoked (RunCauldronContainerGen d' v' p n) \<in> set (trace w') \<or>
       Invoked (UpdateContainerVersion d' v') \<in> set (trace w'))"
    then have run: "performContainerStateUpdateInCauldron env f d opts (start s) = (r, w')"
      by simp
    from a calls_of_update[OF run, of "RunCauldronContainerGen d' v' p n"]
      calls_of_update[OF run, of "UpdateContainerVersion d' v'"]
    show "v' = ?v"
      by (auto simp: plan_def selectionCalls_def split: if_splits)
  qed
  show ?thesis
    by (rule exI[of _ ?v]) (intro conjI sel none plain parsed used)
qed

text \<open>
  Nothing recorded gives \<open>1.0.0\<close>; version 2.1.0 recorded gives 2.1.1, and 2.1.1 is then
  the committed version pointer; the prerelease 1.2.3-beta.1 recorded gives 1.2.3.
\<close>

theorem default_container_version_witness:
  "fst (cauldronContainerVersion quietEnv myApp defaultVersion (start emptyStore)) =
     Returns (Some ''1.0.0'') \<and>
   fst (cauldronContainerVersion quietEnv myApp defaultVersion
          (start (storeRecording myApp ''2.1.0''))) = Returns (Some ''2.1.1'') \<and>
   fst (cauldronContainerVersion quietEnv myApp defaultVersion
          (start (storeRecording myApp ''1.2.3-beta.1''))) = Returns (Some ''1.2.3'') \<and>
   Invoked (RunCauldronContainerGen myApp (Some ''2.1.1'') True None) \<in>
     set (trace (snd (performContainerStateUpdateInCauldron quietEnv noMutation myApp
       defaultVersion (start (storeRecording myApp ''2.1.0''))))) \<and>
   containerVersions (committed (cauldronStore (snd (performContainerStateUpdateInCauldron
     quietEnv noMutation myApp defaultVersion (start (storeRecording myApp ''2.1.0''))))))
     myApp = Some ''2.1.1''"
proof -
  have absent: "\<not> truthy (containerVersion defaultVersion)"
    by (simp add: truthy_def defaultVersion_def)
  have reads: "failure quietEnv (GetTopLevelContainerVersion myApp) = None"
    by (simp add: quietEnv_def)
  have none: "containerVersions (current emptyStore) myApp = None"
    by (simp add: current_def emptyStore_def emptyDocument_def)
  have some: "containerVersions (current (storeRecording myApp ''2.1.0'')) myApp =
      Some (versionString 2 1 0)"
    by (simp add: current_def storeRecording_def emptyDocument_def versionString_def
        showNat_digit)
  have bounds: "(2::nat) \<le> maxSafeInteger \<and> (1::nat) \<le> maxSafeInteger \<and>
      (0::nat) \<le> maxSafeInteger"
    by (simp add: maxSafeInteger_def)
  have next_version: "versionString 2 1 (0 + 1) = ''2.1.1''"
    by (simp add: versionString_def showNat_digit)
  have beta: "containerVersions (current (storeRecording myApp ''1.2.3-beta.1'')) myApp =
      Some ''1.2.3-beta.1''"
    by (simp add: current_def storeRecording_def emptyDocument_def)
  have release: "versionString 1 2 3 = ''1.2.3''"
    by (simp add: versionString_def showNat_digit)
  have run: "Invoked (RunCauldronContainerGen myApp (Some ''2.1.1'') True None) \<in>
     set (trace (snd (performContainerStateUpdateInCauldron quietEnv noMutation myApp
       defaultVersion (start (storeRecording myApp ''2.1.0''))))) \<and>
   containerVersions (committed (cauldronStore (snd (performContainerStateUpdateInCauldron
     quietEnv noMutation myApp defaultVersion (start (storeRecording myApp ''2.1.0''))))))
     myApp = Some ''2.1.1''"
    by (simp add: update_eval)
  from default_container_version[OF absent reads, of emptyStore] none
  have "fst (cauldronContainerVersion quietEnv myApp defaultVersion (start emptyStore)) =
      Returns (Some ''1.0.0'')" by auto
  moreover
  from default_container_version[OF absent reads, of "storeRecording myApp ''2.1.0''"]
  obtain v where
    sel: "fst (cauldronContainerVersion quietEnv myApp defaultVersion
            (start (storeRecording myApp ''2.1.0''))) = Returns v" and
    plain: "\<forall>a b c.
        containerVersions (current (storeRecording myApp ''2.1.0'')) myApp =
          Some (versionString a b c) \<and>
        a \<le> maxSafeInteger \<and> b \<le> maxSafeInteger \<and> c \<le> maxSafeInteger \<longrightarrow>
        v = Some (versionString a b (c + 1))"
    by blast
  from plain some bounds have "v = Some (versionString 2 1 (0 + 1))" by blast
  with sel next_version
  have "fst (cauldronContainerVersion quietEnv myApp defaultVersion
      (start (storeRecording myApp ''2.1.0''))) = Returns (Some ''2.1.1'')" by simp
  moreover
  from default_container_version[OF absent reads, of "storeRecording myApp ''1.2.3-beta.1''"]
  obtain v' where
    sel': "fst (cauldronContainerVersion quietEnv myApp defaultVersion
            (start (storeRecording myApp ''1.2.3-beta.1''))) = Returns v'" and
    parsed: "\<forall>V sv.
        containerVersions (current (storeRecording myApp ''1.2.3-beta.1'')) myApp = Some V \<and>
        parseSemVer V = Some sv \<longrightarrow>
        v' = Some (versionString (major sv) (minor sv)
                     (if prerelease sv = [] then patch sv + 1 else patch sv))"
    by blast
  from parsed beta parseSemVer_beta
  have "v' = Some (versionString
      (major \<lparr>major = 1, minor = 2, patch = 3,
               prerelease = [Alphanumeric ''beta'', Numeric 1], build = []\<rparr>)
      (minor \<lparr>major = 1, minor = 2, patch = 3,
               prerelease = [Alphanumeric ''beta'', Numeric 1], build = []\<rparr>)
      (if prerelease \<lparr>major = 1, minor = 2, patch = 3,
               prerelease = [Alphanumeric ''beta'', Numeric 1], build = []\<rparr> = []
       then patch \<lparr>major = 1, minor = 2, patch = 3,
               prerelease = [Alphanumeric ''beta'', Numeric 1], build = []\<rparr> + 1
       else patch \<lparr>major = 1, minor = 2, patch = 3,
               prerelease = [Alphanumeric ''beta'', Numeric 1], build = []\<rparr>))"
    by blast
  with sel' release
  have "fst (cauldronContainerVersion quietEnv myApp defaultVersion
      (start (storeRecording myApp ''1.2.3-beta.1''))) = Returns (Some ''1.2.3'')" by simp
  ultimately show ?thesis using run by blast
qed

text \<open>
  What every update does when the mutation supplied by the caller throws: the error is
  thrown to the caller, \<open>discardTransaction\<close> is invoked, \<open>updateContainerVersion\<close> is
  never invoked, nor is the commit, and the committed version pointer of every
  descriptor is the one from before the call. When no transaction was open before the
  call and the pending discard completes, the store is as before the call.
\<close>

lemma failed_mutation_writes_no_pointer:
  assumes "performContainerStateUpdateInCauldron env f d opts (start s) = (r, w')"
    and "Rejected StateUpdateFunc e \<in> set (trace w')"
  shows "r = Throws e \<and>
         Invoked DiscardTransaction \<in> set (trace w') \<and>
         (\<forall>d' v. Invoked (UpdateContainerVersion d' v) \<notin> set (trace w')) \<and>
         Invoked CommitTransaction \<notin> set (trace w') \<and>
         containerVersions (committed (cauldronStore w')) = containerVersions (committed s) \<and>
         (transaction s = None \<and> failure env DiscardTransaction = None \<longrightarrow>
            cauldronStore (settle env w') = s)"
  using assms(1)
proof (cases rule: run_cases)
  case (readFailed e')
  with assms(2) show ?thesis by auto
next
  case finished
  with assms(2) have
    "Rejected StateUpdateFunc e \<in>
       set (stepsEvents env f (steps d (selectedVersion d opts s)) s)"
    by simp
  from rejected_stepsEvents[OF this] finished(1) show ?thesis by simp
next
  case (failed e')
  with assms(2) have rej:
    "Rejected StateUpdateFunc e \<in>
       set (stepsEvents env f (steps d (selectedVersion d opts s)) s)"
    by simp
  from rejected_stepsEvents[OF rej] failed(1) have "e' = e" by simp
  with failed rejected_mutation[OF rej] show ?thesis
    by (auto simp: selectionEvents_def settle_def perform_def)
qed

text \<open>
  Claim C4. The claim has the transaction discarded when the mutation throws. At the
  failing input (the store records version 2.1.0; the mutation rewrites the document
  of the transaction, version pointers included, and then throws) the error is thrown
  to the caller, \<open>updateContainerVersion\<close> is never invoked and the committed version
  pointer is still 2.1.0, as the claim says. But \<open>cauldron.discardTransaction()\<close> is
  called without \<open>await\<close> (line 346, the defect of claim C1): when the caller has the
  error the discard is still pending, the transaction is still open and holds what the
  mutation wrote, and a read of the version pointer through the client answers 9.9.9.
  The store is as before the call only when the pending discard has completed.
\<close>

theorem failed_mutation_rethrown_before_discard_completes:
  "fst (performContainerStateUpdateInCauldron quietEnv (failingMutation mutationFailed) myApp
          defaultVersion (start (storeRecording myApp ''2.1.0''))) = Throws mutationFailed \<and>
   invoked (trace (snd (performContainerStateUpdateInCauldron quietEnv
          (failingMutation mutationFailed) myApp defaultVersion
          (start (storeRecording myApp ''2.1.0''))))) =
     [GetTopLevelContainerVersion myApp, BeginTransaction, StateUpdateFunc,
      DiscardTransaction] \<and>
   unawaited (snd (performContainerStateUpdateInCauldron quietEnv
          (failingMutation mutationFailed) myApp defaultVersion
          (start (storeRecording myApp ''2.1.0'')))) = [DiscardTransaction] \<and>
   \<not> transactionClosed (snd (performContainerStateUpdateInCauldron quietEnv
          (failingMutation mutationFailed) myApp defaultVersion
          (start (storeRecording myApp ''2.1.0'')))) \<and>
   containerVersions (committed (cauldronStore (snd (performContainerStateUpdateInCauldron
          quietEnv (failingMutation mutationFailed) myApp defaultVersion
          (start (storeRecording myApp ''2.1.0'')))))) myApp = Some ''2.1.0'' \<and>
   fst (awaitGetTopLevelContainerVersion quietEnv myApp
          (snd (performContainerStateUpdateInCauldron quietEnv
             (failingMutation mutationFailed) myApp defaultVersion
             (start (storeRecording myApp ''2.1.0''))))) = Returns (Some ''9.9.9'') \<and>
   cauldronStore (settle quietEnv (snd (performContainerStateUpdateInCauldron quietEnv
          (failingMutation mutationFailed) myApp defaultVersion
          (start (storeRecording myApp ''2.1.0''))))) = storeRecording myApp ''2.1.0''"
  by (simp add: update_eval settle_def transactionClosed_def)

text \<open>
  Claim C5, as amended. In every run of \<open>performContainerStateUpdateInCauldron\<close> in which
  opening the transaction fails, the run fails with the very error \<open>beginTransaction\<close>
  failed with, and none of the mutation, the generation, the write of the version
  pointer and the commit is invoked: the calls of the run are those of the version
  selection, \<open>beginTransaction\<close> and \<open>discardTransaction\<close>.
\<close>

theorem failed_begin_rethrows_its_error:
  assumes "performContainerStateUpdateInCauldron env f d opts (start s) = (r, w')"
    and "Rejected BeginTransaction e \<in> set (trace w')"
  shows "r = Throws e \<and>
         invoked (trace w') = selectionCalls d opts @ [BeginTransaction, DiscardTransaction]"
  using assms(1)
proof (cases rule: run_cases)
  case (readFailed e')
  with assms(2) show ?thesis by auto
next
  case finished
  with assms(2) have
    "Rejected BeginTransaction e \<in>
       set (stepsEvents env f (steps d (selectedVersion d opts s)) s)"
    by simp
  from rejected_stepsEvents[OF this] finished(1) show ?thesis by simp
next
  case (failed e')
  with assms(2) have rej:
    "Rejected BeginTransaction e \<in>
       set (stepsEvents env f (steps d (selectedVersion d opts s)) s)"
    by simp
  from rejected_stepsEvents[OF rej] failed(1) have "e' = e" by simp
  with failed rejected_begin[OF rej] show ?thesis
    by (simp add: selectionEvents_def selectionCalls_def)
qed

text \<open>
  \<open>beginTransaction\<close> fails because a transaction is already pending: this error is
  thrown, after the read of the version only \<open>beginTransaction\<close> and
  \<open>discardTransaction\<close> are invoked.
\<close>

theorem failed_begin_rethrows_its_error_witness:
  "fst (performContainerStateUpdateInCauldron (failing BeginTransaction transactionPending)
          noMutation myApp defaultVersion (start (storeRecording myApp ''2.1.0''))) =
     Throws transactionPending \<and>
   invoked (trace (snd (performContainerStateUpdateInCauldron
          (failing BeginTransaction transactionPending) noMutation myApp defaultVersion
          (start (storeRecording myApp ''2.1.0''))))) =
     [GetTopLevelContainerVersion myApp, BeginTransaction, DiscardTransaction]"
proof -
  let ?run = "performContainerStateUpdateInCauldron
     (failing BeginTransaction transactionPending) noMutation myApp defaultVersion
     (start (storeRecording myApp ''2.1.0''))"
  have run: "?run = (fst ?run, snd ?run)" by simp
  have rejected: "Rejected BeginTransaction transactionPending \<in> set (trace (snd ?run))"
    by (simp add: update_eval)
  have calls: "selectionCalls myApp defaultVersion = [GetTopLevelContainerVersion myApp]"
    by (simp add: selectionCalls_def truthy_def defaultVersion_def)
  from failed_begin_rethrows_its_error[OF run rejected] calls show ?thesis by simp
qed

text \<open>
  The claim as stated has the run fail with a \<open>StateStoreUnavailable\<close> error. The update
  wraps no error: when \<open>beginTransaction\<close> fails because a transaction is already
  pending, the run fails with that error, which is not a \<open>StateStoreUnavailable\<close> error.
\<close>

theorem begin_failure_not_StateStoreUnavailable:
  "fst (performContainerStateUpdateInCauldron (failing BeginTransaction transactionPending)
          noMutation myApp \<lparr>containerVersion = Some ''3.0.0''\<rparr> (start emptyStore)) =
     Throws transactionPending \<and>
   \<not> isStateStoreUnavailable transactionPending"
  by (simp add: update_eval isStateStoreUnavailable_def)

text \<open>
  Claim C6, as amended. In every run of \<open>performContainerStateUpdateInCauldron\<close> with an
  explicit \<open>containerVersion\<close> that is not the empty string, the version selected is the
  \<open>containerVersion\<close> supplied, verbatim, and the top-level container version of the
  store is not read: the selection makes no call and leaves the world as it is, and
  the whole update never invokes \<open>getTopLevelContainerVersion\<close>.
\<close>

theorem explicit_container_version_verbatim:
  assumes "truthy (containerVersion opts)"
  shows "cauldronContainerVersion env d opts w = (Returns (containerVersion opts), w) \<and>
         (\<forall>r w' d'. performContainerStateUpdateInCauldron env f d opts (start s) = (r, w') \<longrightarrow>
            Invoked (GetTopLevelContainerVersion d') \<notin> set (trace w'))"
proof -
  have "Invoked (GetTopLevelContainerVersion d') \<notin> set (trace w')"
    if run: "performContainerStateUpdateInCauldron env f d opts (start s) = (r, w')"
    for r w' d'
    using run
  proof (cases rule: run_cases)
    case (readFailed e)
    with assms show ?thesis by simp
  next
    case finished
    with assms invoked_stepsEvents[of "GetTopLevelContainerVersion d'" env f
        "steps d (selectedVersion d opts s)" s]
    show ?thesis by (auto simp: selectionEvents_def steps_def)
  next
    case (failed e)
    with assms invoked_stepsEvents[of "GetTopLevelContainerVersion d'" env f
        "steps d (selectedVersion d opts s)" s]
    show ?thesis by (auto simp: selectionEvents_def steps_def)
  qed
  with assms show ?thesis by (simp add: cauldronContainerVersion_eq)
qed

text \<open>
  With \<open>containerVersion\<close> 3.0.0 and version 2.1.0 recorded: 3.0.0 is selected, and the
  update generates and records 3.0.0 without a read of the store.
\<close>

theorem explicit_container_version_verbatim_witness:
  "truthy (Some ''3.0.0'') \<and>
   cauldronContainerVersion quietEnv myApp \<lparr>containerVersion = Some ''3.0.0''\<rparr>
     (start (storeRecording myApp ''2.1.0'')) =
   (Returns (Some ''3.0.0''), start (storeRecording myApp ''2.1.0'')) \<and>
   invoked (trace (snd (performContainerStateUpdateInCauldron quietEnv noMutation myApp
          \<lparr>containerVersion = Some ''3.0.0''\<rparr> (start (storeRecording myApp ''2.1.0''))))) =
     [BeginTransaction, StateUpdateFunc,
      RunCauldronContainerGen myApp (Some ''3.0.0'') True None,
      UpdateContainerVersion myApp (Some ''3.0.0''), CommitTransaction]"
proof -
  have given: "truthy (containerVersion \<lparr>containerVersion = Some ''3.0.0''\<rparr>)"
    by (simp add: truthy_def)
  have calls: "invoked (trace (snd (performContainerStateUpdateInCauldron quietEnv noMutation
      myApp \<lparr>containerVersion = Some ''3.0.0''\<rparr> (start (storeRecording myApp ''2.1.0''))))) =
     [BeginTransaction, StateUpdateFunc,
      RunCauldronContainerGen myApp (Some ''3.0.0'') True None,
      UpdateContainerVersion myApp (Some ''3.0.0''), CommitTransaction]"
    by (simp add: update_eval)
  from explicit_container_version_verbatim[OF given, of quietEnv myApp
      "start (storeRecording myApp ''2.1.0'')" noMutation "storeRecording myApp ''2.1.0''"]
    given calls
  show ?thesis by simp
qed

text \<open>
  The claim as stated covers every explicit \<open>containerVersion\<close>. The test
  \<open>if (containerVersion)\<close> takes the empty string for an absent option: with
  \<open>containerVersion\<close> the empty string and version 2.1.0 recorded, the store is read and
  2.1.1 is selected, not the string supplied.
\<close>

theorem empty_container_version_reads_store:
  "fst (cauldronContainerVersion quietEnv myApp \<lparr>containerVersion = Some []\<rparr>
          (start (storeRecording myApp ''2.1.0''))) = Returns (Some ''2.1.1'') \<and>
   invoked (trace (snd (cauldronContainerVersion quietEnv myApp \<lparr>containerVersion = Some []\<rparr>
          (start (storeRecording myApp ''2.1.0''))))) = [GetTopLevelContainerVersion myApp]"
  by (simp add: update_eval)

text \<open>
  A run that returns leaves the version it selected as the committed version pointer
  of the descriptor, and no transaction open.
\<close>

lemma stepsError_None_Cons:
  "stepsError env f ((m, c) # cs) s = None \<Longrightarrow>
   \<exists>s'. act env f c s = (None, s') \<and> stepsError env f cs s' = None \<and>
     stepsStore env f ((m, c) # cs) s = stepsStore env f cs s'"
  by (cases "act env f c s") (auto split: option.splits)

lemma pointer_after_write:
  "containerVersions (current (effect (UpdateContainerVersion d v) s)) d = v"
  by (simp add: store_write_def current_def split: option.splits)

lemma successful_update_commits_version:
  assumes "performContainerStateUpdateInCauldron env f d opts (start s) = (r, w')"
    and "r = Returns ()"
  shows "containerVersions (committed (cauldronStore w')) d = selectedVersion d opts s \<and>
         transactionClosed w'"
  using assms(1)
proof (cases rule: run_cases)
  case (readFailed e)
  with assms(2) show ?thesis by simp
next
  case (failed e)
  with assms(2) show ?thesis by simp
next
  case finished
  let ?v = "selectedVersion d opts s"
  let ?m = "Some (''Generating new container version '' @ showVersion ?v @ '' for '' @ d)"
  from finished(1) have e0: "stepsError env f
      ((None, BeginTransaction) #
       [(None, StateUpdateFunc), (?m, RunCauldronContainerGen d ?v True None),
        (None, UpdateContainerVersion d ?v), (Some ''Updating Cauldron'', CommitTransaction)])
      s = None"
    unfolding steps_Cons .
  from stepsError_None_Cons[OF e0] obtain s1 where
    e1: "stepsError env f
           [(None, StateUpdateFunc), (?m, RunCauldronContainerGen d ?v True None),
            (None, UpdateContainerVersion d ?v), (Some ''Updating Cauldron'', CommitTransaction)]
           s1 = None" and
    t1: "stepsStore env f (steps d ?v) s =
         stepsStore env f
           [(None, StateUpdateFunc), (?m, RunCauldronContainerGen d ?v True None),
            (None, UpdateContainerVersion d ?v), (Some ''Updating Cauldron'', CommitTransaction)]
           s1"
    unfolding steps_Cons by blast
  from stepsError_None_Cons[OF e1] obtain s2 where
    e2: "stepsError env f
           [(?m, RunCauldronContainerGen d ?v True None),
            (None, UpdateContainerVersion d ?v), (Some ''Updating Cauldron'', CommitTransaction)]
           s2 = None" and
    t2: "stepsStore env f
           [(None, StateUpdateFunc), (?m, RunCauldronContainerGen d ?v True None),
            (None, UpdateContainerVersion d ?v), (Some ''Updating Cauldron'', CommitTransaction)]
           s1 =
         stepsStore env f
           [(?m, RunCauldronContainerGen d ?v True None),
            (None, UpdateContainerVersion d ?v), (Some ''Updating Cauldron'', CommitTransaction)]
           s2"
    by blast
  from stepsError_None_Cons[OF e2] obtain s3 where
    e3: "stepsError env f
           [(None, UpdateContainerVersion d ?v), (Some ''Updating Cauldron'', CommitTransaction)]
           s3 = None" and
    t3: "stepsStore env f
           [(?m, RunCauldronContainerGen d ?v True None),
            (None, UpdateContainerVersion d ?v), (Some ''Updating Cauldron'', CommitTransaction)]
           s2 =
         stepsStore env f
           [(None, UpdateContainerVersion d ?v), (Some ''Updating Cauldron'', CommitTransaction)]
           s3"
    by blast
  from stepsError_None_Cons[OF e3] obtain s4 where
    a4: "act env f (UpdateContainerVersion d ?v) s3 = (None, s4)" and
    e4: "stepsError env f [(Some ''Updating Cauldron'', CommitTransaction)] s4 = None" and
    t4: "stepsStore env f
           [(None, UpdateContainerVersion d ?v), (Some ''Updating Cauldron'', CommitTransaction)]
           s3 =
         stepsStore env f [(Some ''Updating Cauldron'', CommitTransaction)] s4"
    by blast
  from stepsError_None_Cons[OF e4] obtain s5 where
    a5: "act env f CommitTransaction s4 = (None, s5)" and
    t5: "stepsStore env f [(Some ''Updating Cauldron'', CommitTransaction)] s4 = s5"
    by auto
  from a4 have s4: "s4 = effect (UpdateContainerVersion d ?v) s3"
    by (simp add: act_def perform_def split: option.splits)
  from a5 have s5: "s5 = \<lparr>committed = current s4, transaction = None\<rparr>"
    by (simp add: act_def perform_def split: option.splits)
  have pointer: "containerVersions (current s4) d = ?v"
    unfolding s4 by (rule pointer_after_write)
  have "cauldronStore w' = s5"
    using finished(3) t1 t2 t3 t4 t5 by simp
  with s5 pointer show ?thesis
    by (simp add: transactionClosed_def)
qed

section \<open>runMiniApp: the checks on the inputs\<close>

text \<open>
  Claim C9, as amended. In every run of \<open>runMiniApp\<close> with an inconsistent combination of
  inputs (more than one mini-app without a main mini-app name, more than one mini-app
  with development mode enabled, a non-empty list of native dependencies together with
  a descriptor that is not the empty string, or mini-apps together with a descriptor
  that is not the empty string) one of the four usage errors is thrown at once: the
  world is as before the call, so no precondition was checked, no container was
  generated and no other step was taken.
\<close>

theorem inconsistent_inputs_throw_first:
  assumes "inconsistentInputs a"
  shows "\<exists>e \<in> set usageErrors. runMiniApp env pf a w = (Throws e, w)"
  using assms
  by (auto simp: inconsistentInputs_def runMiniApp_def andThen_def throwIf_def throw_def
      ret_def usageErrors_def truthyFlag_def split: option.splits)

text \<open>Two mini-apps and no main mini-app name: the first usage error, and nothing else.\<close>

theorem inconsistent_inputs_throw_first_witness:
  "inconsistentInputs twoMiniApps \<and>
   runMiniApp quietEnv ''android'' twoMiniApps (start emptyStore) =
     (Throws (newError
        ''If you provide multiple MiniApps you need to provide the name of the MiniApp to launch''),
      start emptyStore)"
proof -
  have bad: "inconsistentInputs twoMiniApps"
    by (simp add: inconsistentInputs_def twoMiniApps_def truthy_def)
  from inconsistent_inputs_throw_first[OF bad, of quietEnv "''android''" "start emptyStore"]
  obtain e where "runMiniApp quietEnv ''android'' twoMiniApps (start emptyStore) =
      (Throws e, start emptyStore)" by blast
  moreover have "fst (runMiniApp quietEnv ''android'' twoMiniApps (start emptyStore)) =
      Throws (newError
        ''If you provide multiple MiniApps you need to provide the name of the MiniApp to launch'')"
    by (simp add: runMiniApp_def andThen_def throwIf_def throw_def twoMiniApps_def truthy_def)
  ultimately show ?thesis using bad by simp
qed

lemmas runMiniApp_eval =
  runMiniApp_def checkedDescriptor_def runnerInputs_def runOnPlatform_def
  generateContainerForRunner_def launchAndroidRunner_def pathJoin_def emptyDescriptor_def
  prog_defs example_defs

text \<open>
  The claim as stated covers every descriptor. The tests on \<open>descriptor\<close> take the empty
  string for an absent option: with a native dependency and the empty string for
  descriptor, no error is thrown; \<open>runMiniApp\<close> generates a container with the
  dependency and launches the runner.
\<close>

theorem empty_descriptor_accepted:
  "inconsistentInputsAsStated emptyDescriptor \<and>
   fst (runMiniApp quietEnv ''android'' emptyDescriptor (start emptyStore)) = Returns () \<and>
   invoked (trace (snd (runMiniApp quietEnv ''android'' emptyDescriptor (start emptyStore)))) =
     [MiniAppFromCurrentPath,
      RunLocalContainerGen [FromFileSystemPath ''/home/dev/MyMiniApp''] ''android'' ''1.0.0''
        ''runner'' [''react-native-code-push@1.16.1''],
      GenerateAndroidRunnerProject ''/home/dev/.ern/versions/0.8.0''
        ''/home/dev/MyMiniApp/android'' ''/home/dev/.ern/containergen'' ''MyMiniApp''
        (Some False),
      RunAndroidProject ''/home/dev/MyMiniApp/android'' ''com.walmartlabs.ern'']"
  by (simp add: inconsistentInputsAsStated_def runMiniApp_eval)

end
